theory Spec2Isabelle
  imports Complex_Main "HOL-Library.AList" "HOL-Library.Product_Lexorder" "HOL-Library.Multiset"
    "HOL-Library.Log_Nat"
begin

section \<open>Conventions of the embedding\<close>

text \<open>
  The two computations of the dashboard that carry its logic are embedded:
  \<^verbatim>\<open>processRaceData\<close> and \<^verbatim>\<open>interpolateDriverPositions\<close> of the replay component, and
  \<^verbatim>\<open>getChampionshipStandings\<close> of the OpenF1 service.

  \<^item> Integer fields of the API (driver numbers, positions, lap numbers) are \<open>int\<close>.
  \<^item> A timestamp field holds the time value \<^verbatim>\<open>new Date(s).getTime()\<close> of its ISO string:
    an \<open>int\<close> of milliseconds. Strings that are no valid date (for which \<^verbatim>\<open>getTime\<close> is NaN
    and \<^verbatim>\<open>toISOString\<close> throws) are outside the model. A timestamp the code writes with
    \<^verbatim>\<open>toISOString\<close> is the millisecond count it denotes.
  \<^item> The time of a frame is computed as the code computes it, in IEEE 754 double precision:
    every operation on the way from the first and last timestamp to \<^verbatim>\<open>currentTime\<close> gives the
    exact result rounded to the nearest double (\<open>round_double\<close>). A time value of a \<^verbatim>\<open>Date\<close> is
    an integer of magnitude at most 8.64e15, which a double holds exactly.
  \<^item> The other fractions computed by the code (progress, lap durations) are exact rationals.
  \<^item> \<^verbatim>\<open>Date.now()\<close> is a parameter, one for each reading.
  \<^item> A JavaScript \<^verbatim>\<open>Map\<close> is an association list in insertion order, written with
    \<open>AList.update\<close> (a key that is already present keeps its place) and read with \<open>map_of\<close>.
  \<^item> \<^verbatim>\<open>Array.prototype.sort\<close> is stable; with a comparator \<^verbatim>\<open>a.k - b.k\<close> over integers it is
    \<open>sort_key k\<close>, and with \<^verbatim>\<open>b.k - a.k\<close> it is \<open>sort_key\<close> on \<open>- k\<close>.
  \<^item> The fields of the API records that neither computation reads are left out.
  \<^item> A parameter whose name is also the name of a record field is primed
    (\<^verbatim>\<open>positions\<close> is \<open>positions'\<close>), and the parameter \<^verbatim>\<open>progress\<close> of the interpolation is
    \<open>ratio\<close>.
\<close>

subsection \<open>JavaScript's falsy values\<close>

definition or_else :: "int option \<Rightarrow> int \<Rightarrow> int" where
  \<comment> \<open>\<^verbatim>\<open>a || b\<close> for a number or undefined \<open>a\<close>: 0 and undefined are falsy.\<close>
  "or_else a b = (case a of None \<Rightarrow> b | Some v \<Rightarrow> if v = 0 then b else v)"

definition str_or :: "string \<Rightarrow> string \<Rightarrow> string" where
  \<comment> \<open>\<^verbatim>\<open>a || b\<close> for strings: the empty string is falsy.\<close>
  "str_or a b = (if a = [] then b else a)"

definition num_or_null :: "rat option \<Rightarrow> rat option" where
  \<comment> \<open>\<^verbatim>\<open>x || null\<close> for a number, null or undefined \<open>x\<close>.\<close>
  "num_or_null x = (case x of None \<Rightarrow> None | Some v \<Rightarrow> if v = 0 then None else Some v)"

fun digits :: "nat \<Rightarrow> string" where
  "digits n = (if n < 10 then [char_of (48 + n)] else digits (n div 10) @ [char_of (48 + n mod 10)])"

declare digits.simps [simp del]

definition string_of_int :: "int \<Rightarrow> string" where
  \<comment> \<open>The decimal text a template literal gives an integer.\<close>
  "string_of_int n = (if n < 0 then CHR ''-'' # digits (nat (- n)) else digits (nat n))"

definition trunc :: "rat \<Rightarrow> int" where
  \<comment> \<open>\<^verbatim>\<open>new Date(t)\<close> keeps the integral part of \<open>t\<close> (rounding towards zero).\<close>
  "trunc x = (if 0 \<le> x then \<lfloor>x\<rfloor> else \<lceil>x\<rceil>)"

subsection \<open>Double precision\<close>

text \<open>
  A double is a rational \<open>m * 2 powi (e - 52)\<close> with an integer \<open>m\<close> of at most 53 bits. The
  exponent is not bounded here: the numbers rounded are differences, quotients and multiples of
  time values, far from overflow and from the subnormal range.
\<close>

definition round_even :: "rat \<Rightarrow> int" where
  \<comment> \<open>The nearest integer; of two nearest ones, the even one.\<close>
  "round_even q =
     (let f = \<lfloor>q\<rfloor>
      in if q - of_int f < 1 / 2 then f
         else if 1 / 2 < q - of_int f then f + 1
         else if even f then f else f + 1)"

definition exponent_of :: "rat \<Rightarrow> int" where
  \<comment> \<open>The \<open>e\<close> with \<open>2 powi e \<le> \<bar>x\<bar> < 2 powi (e + 1)\<close>, for \<open>x \<noteq> 0\<close>: the difference of the bit
      lengths of numerator and denominator, or one less.\<close>
  "exponent_of x =
     (let k = bitlen (fst (quotient_of \<bar>x\<bar>)) - bitlen (snd (quotient_of \<bar>x\<bar>))
      in if 2 powi k \<le> \<bar>x\<bar> then k else k - 1)"

definition round_double :: "rat \<Rightarrow> rat" where
  \<comment> \<open>Rounding to the nearest double, ties to the even significand.\<close>
  "round_double x =
     (if x = 0 then 0
      else let ulp = 2 powi (exponent_of x - 52) in of_int (round_even (x / ulp)) * ulp)"

subsection \<open>Records of the API (types/f1)\<close>

record Driver =
  driver_number :: int
  full_name :: string
  name_acronym :: string
  team_colour :: string
  team_name :: string

record Position =
  date :: int
  driver_number :: int
  position :: int

record Lap =
  date_start :: int
  driver_number :: int
  duration_sector_1 :: "rat option"
  duration_sector_2 :: "rat option"
  duration_sector_3 :: "rat option"
  is_pit_out_lap :: bool
  lap_duration :: "rat option"
  lap_number :: int

record RaceControl =
  category :: string
  date :: int
  driver_number :: "int option"
  flag :: "string option"
  message :: string

record Session =
  session_key :: int
  session_name :: string

section \<open>The replay timeline (RaceReplay.tsx)\<close>

subsection \<open>Data\<close>

record LapCompletion =
  timestamp :: int
  driver_number :: int
  lap_number :: int
  cumulative_time :: rat
  position :: int

record DriverState =
  position :: int
  lap_number :: int
  cumulative_time :: rat
  pit_stops :: int
  is_in_pit :: bool
  baseline_progress :: rat

type_synonym DriverStates = "(int \<times> DriverState) list"

subsection \<open>processRaceData\<close>

definition maxLap_of :: "Lap list \<Rightarrow> int" where
  \<comment> \<open>\<^verbatim>\<open>Math.max(...laps.map(l => l.lap_number), 1)\<close>\<close>
  "maxLap_of laps = fold max (map Lap.lap_number laps) 1"

definition finishingDrivers :: "Driver list \<Rightarrow> Lap list \<Rightarrow> Driver list" where
  "finishingDrivers drivers laps =
     filter (\<lambda>driver.
        length (filter (\<lambda>lap. Lap.driver_number lap = Driver.driver_number driver) laps) > 3)
       drivers"

definition lapPosition :: "Position list \<Rightarrow> (int \<rightharpoonup> int) \<Rightarrow> Driver \<Rightarrow> Lap \<Rightarrow> int" where
  \<comment> \<open>The \<^verbatim>\<open>position\<close> initialiser of a lap completion:
      \<^verbatim>\<open>positions.find(...)?.position || qualifyingPositions[n] || n\<close>.\<close>
  "lapPosition positions qualifyingPositions driver lap =
     or_else
       (map_option Position.position
          (find (\<lambda>p. Position.driver_number p = Driver.driver_number driver \<and>
                      \<bar>Position.date p - Lap.date_start lap\<bar> < 60000) positions))
       (or_else (qualifyingPositions (Driver.driver_number driver)) (Driver.driver_number driver))"

definition driverLaps :: "Driver \<Rightarrow> Lap list \<Rightarrow> Lap list" where
  "driverLaps driver laps =
     sort_key Lap.lap_number
       (filter (\<lambda>lap. Lap.driver_number lap = Driver.driver_number driver \<and>
                       Lap.lap_duration lap \<noteq> None) laps)"

fun driverCompletions ::
  "Position list \<Rightarrow> (int \<rightharpoonup> int) \<Rightarrow> Driver \<Rightarrow> rat \<Rightarrow> Lap list \<Rightarrow> LapCompletion list" where
  "driverCompletions positions qualifyingPositions driver cumulativeTime [] = []"
| "driverCompletions positions qualifyingPositions driver cumulativeTime (lap # rest) =
     (let cumulativeTime' =
            cumulativeTime + (case Lap.lap_duration lap of None \<Rightarrow> 0 | Some d \<Rightarrow> d)
      in \<lparr> LapCompletion.timestamp = Lap.date_start lap,
            LapCompletion.driver_number = Driver.driver_number driver,
            LapCompletion.lap_number = Lap.lap_number lap,
            LapCompletion.cumulative_time = cumulativeTime',
            LapCompletion.position = lapPosition positions qualifyingPositions driver lap \<rparr>
         # driverCompletions positions qualifyingPositions driver cumulativeTime' rest)"

definition allLapCompletions ::
  "Driver list \<Rightarrow> Position list \<Rightarrow> Lap list \<Rightarrow> (int \<rightharpoonup> int) \<Rightarrow> LapCompletion list" where
  "allLapCompletions drivers positions laps qualifyingPositions =
     sort_key LapCompletion.timestamp
       (concat (map (\<lambda>driver. driverCompletions positions qualifyingPositions driver 0
                                  (driverLaps driver laps))
                    (finishingDrivers drivers laps)))"

definition timeIntervals_of :: "Lap list \<Rightarrow> int" where
  "timeIntervals_of laps = min (maxLap_of laps * 2) 100"

definition initialStates :: "(int \<rightharpoonup> int) \<Rightarrow> Driver list \<Rightarrow> DriverStates" where
  "initialStates qualifyingPositions finishing =
     fold (\<lambda>driver states.
             AList.update (Driver.driver_number driver)
               \<lparr> DriverState.position =
                    or_else (qualifyingPositions (Driver.driver_number driver))
                            (Driver.driver_number driver),
                  DriverState.lap_number = 0,
                  DriverState.cumulative_time = 0,
                  DriverState.pit_stops = 0,
                  DriverState.is_in_pit = False,
                  DriverState.baseline_progress = 0 \<rparr> states)
          finishing []"

definition applyCompletion :: "Lap list \<Rightarrow> rat \<Rightarrow> LapCompletion \<Rightarrow> DriverStates \<Rightarrow> DriverStates" where
  "applyCompletion laps currentTime completion states =
     (if of_int (LapCompletion.timestamp completion) \<le> currentTime then
        (case map_of states (LapCompletion.driver_number completion) of
           None \<Rightarrow> states
         | Some driverState \<Rightarrow>
             if LapCompletion.lap_number completion > DriverState.lap_number driverState then
               (let pitLap = find (\<lambda>lap.
                        Lap.driver_number lap = LapCompletion.driver_number completion \<and>
                        Lap.lap_number lap = LapCompletion.lap_number completion \<and>
                        Lap.is_pit_out_lap lap) laps
                in AList.update (LapCompletion.driver_number completion)
                     (driverState
                        \<lparr> DriverState.position := LapCompletion.position completion,
                          DriverState.lap_number := LapCompletion.lap_number completion,
                          DriverState.cumulative_time := LapCompletion.cumulative_time completion,
                          DriverState.pit_stops :=
                            (if pitLap \<noteq> None then DriverState.pit_stops driverState + 1
                             else DriverState.pit_stops driverState),
                          DriverState.is_in_pit := (pitLap \<noteq> None) \<rparr>)
                     states)
             else states)
      else states)"

record ChartPosition =
  driver_number :: int
  position :: int
  progress :: rat
  team_colour :: string
  name_acronym :: string
  full_name :: string
  pit_stops :: int
  is_in_pit :: bool
  last_lap_time :: "rat option"
  sector_1_time :: "rat option"
  sector_2_time :: "rat option"
  sector_3_time :: "rat option"
  current_lap_number :: int
  interpolated_position :: "rat option"
  position_change :: "int option"

record ChartFlag =
  flag_type :: string  \<comment> \<open>the field \<^verbatim>\<open>type\<close>\<close>
  message :: string
  driver_number :: "int option"

record PositionChartData =
  timestamp :: int
  lapNumber :: int
  totalLaps :: int
  positions :: "ChartPosition list"
  flags :: "ChartFlag list"

definition driverProgress :: "int \<Rightarrow> rat \<Rightarrow> DriverState \<Rightarrow> rat" where
  \<comment> \<open>The value of \<^verbatim>\<open>progress\<close> before the baseline is taken into account.\<close>
  "driverProgress maxLap globalProgress driverState =
     (if DriverState.lap_number driverState > 0 then
        (let lapProgress = of_int (DriverState.lap_number driverState) / of_int maxLap;
             positionModifier = of_int (20 - DriverState.position driverState) * (2 / 1000)
         in max (min (lapProgress + positionModifier) 1) (globalProgress * (8 / 10)))
      else max (globalProgress * (1 / 10)) (1 / 100))"

definition latestLap :: "Lap list \<Rightarrow> Driver \<Rightarrow> rat \<Rightarrow> Lap option" where
  \<comment> \<open>\<^verbatim>\<open>driverLapsUpToNow[0]\<close>, undefined on the empty array.\<close>
  "latestLap laps driver currentTime =
     (case sort_key (\<lambda>lap. - Lap.lap_number lap)
             (filter (\<lambda>lap. Lap.driver_number lap = Driver.driver_number driver \<and>
                             of_int (Lap.date_start lap) \<le> currentTime) laps) of
        [] \<Rightarrow> None
      | lap # _ \<Rightarrow> Some lap)"

definition chartEntry :: "Lap list \<Rightarrow> rat \<Rightarrow> Driver \<Rightarrow> DriverState \<Rightarrow> ChartPosition" where
  \<comment> \<open>The object literal returned for a driver, read from the state after the baseline update.\<close>
  "chartEntry laps currentTime driver driverState =
     (let latest = latestLap laps driver currentTime
      in \<lparr> ChartPosition.driver_number = Driver.driver_number driver,
            ChartPosition.position = DriverState.position driverState,
            ChartPosition.progress = max (DriverState.baseline_progress driverState) (1 / 100),
            ChartPosition.team_colour = str_or (Driver.team_colour driver) ''#ffffff'',
            ChartPosition.name_acronym =
              str_or (Driver.name_acronym driver)
                     (''D'' @ string_of_int (Driver.driver_number driver)),
            ChartPosition.full_name =
              str_or (Driver.full_name driver)
                     (''Driver '' @ string_of_int (Driver.driver_number driver)),
            ChartPosition.pit_stops = DriverState.pit_stops driverState,
            ChartPosition.is_in_pit = DriverState.is_in_pit driverState,
            ChartPosition.last_lap_time = num_or_null (Option.bind latest Lap.lap_duration),
            ChartPosition.sector_1_time = num_or_null (Option.bind latest Lap.duration_sector_1),
            ChartPosition.sector_2_time = num_or_null (Option.bind latest Lap.duration_sector_2),
            ChartPosition.sector_3_time = num_or_null (Option.bind latest Lap.duration_sector_3),
            ChartPosition.current_lap_number = DriverState.lap_number driverState,
            ChartPosition.interpolated_position = None,
            ChartPosition.position_change = None \<rparr>)"

definition withBaseline :: "int \<Rightarrow> rat \<Rightarrow> DriverState \<Rightarrow> DriverState" where
  \<comment> \<open>\<^verbatim>\<open>driverState.baseline_progress = Math.max(driverState.baseline_progress, progress)\<close>\<close>
  "withBaseline maxLap globalProgress driverState =
     driverState
       \<lparr> DriverState.baseline_progress :=
           max (DriverState.baseline_progress driverState)
               (driverProgress maxLap globalProgress driverState) \<rparr>"

fun chartPositions ::
  "Lap list \<Rightarrow> int \<Rightarrow> rat \<Rightarrow> rat \<Rightarrow> Driver list \<Rightarrow> DriverStates \<Rightarrow> ChartPosition list \<times> DriverStates"
  where
  \<comment> \<open>\<^verbatim>\<open>finishingDrivers.map(...).filter(Boolean)\<close>, with the states it leaves behind.\<close>
  "chartPositions laps maxLap currentTime globalProgress [] states = ([], states)"
| "chartPositions laps maxLap currentTime globalProgress (driver # rest) states =
     (case map_of states (Driver.driver_number driver) of
        None \<Rightarrow> chartPositions laps maxLap currentTime globalProgress rest states
      | Some driverState \<Rightarrow>
          (case chartPositions laps maxLap currentTime globalProgress rest
                  (AList.update (Driver.driver_number driver)
                     (withBaseline maxLap globalProgress driverState) states) of
             (entries, states') \<Rightarrow>
               (chartEntry laps currentTime driver (withBaseline maxLap globalProgress driverState)
                  # entries,
                states')))"

definition currentFlags :: "RaceControl list \<Rightarrow> rat \<Rightarrow> ChartFlag list" where
  "currentFlags raceControl currentTime =
     map (\<lambda>rc. \<lparr> ChartFlag.flag_type =
                     (case RaceControl.flag rc of None \<Rightarrow> ''FLAG'' | Some f \<Rightarrow> str_or f ''FLAG''),
                  ChartFlag.message = RaceControl.message rc,
                  ChartFlag.driver_number =
                     (case RaceControl.driver_number rc of
                        None \<Rightarrow> None
                      | Some n \<Rightarrow> if n = 0 then None else Some n) \<rparr>)
       (filter (\<lambda>rc. \<bar>round_double (of_int (RaceControl.date rc) - currentTime)\<bar> < 30000 \<and>
                      ((case RaceControl.flag rc of None \<Rightarrow> False | Some f \<Rightarrow> f \<noteq> []) \<or>
                       RaceControl.category rc = ''Flag''))
          raceControl)"

definition frameAt ::
  "Lap list \<Rightarrow> RaceControl list \<Rightarrow> int \<Rightarrow> Driver list \<Rightarrow> rat \<Rightarrow> rat \<Rightarrow> DriverStates \<Rightarrow>
   PositionChartData \<times> DriverStates" where
  \<comment> \<open>The body of the frame loop after the lap completions are applied: the frame pushed,
      and the states as the iteration leaves them.\<close>
  "frameAt laps raceControl maxLap finishing currentTime globalProgress states =
     (case chartPositions laps maxLap currentTime globalProgress finishing states of
        (entries, states') \<Rightarrow>
          (\<lparr> PositionChartData.timestamp = trunc currentTime,
             PositionChartData.lapNumber =
               fold max (map (DriverState.lap_number \<circ> snd) states') 1,
             PositionChartData.totalLaps = maxLap,
             PositionChartData.positions = sort_key ChartPosition.position entries,
             PositionChartData.flags = currentFlags raceControl currentTime \<rparr>,
           states'))"

definition frameTime :: "rat \<Rightarrow> rat \<Rightarrow> nat \<Rightarrow> rat" where
  \<comment> \<open>\<^verbatim>\<open>startTime + (i * timeStep)\<close>\<close>
  "frameTime startTime timeStep i = round_double (startTime + round_double (of_nat i * timeStep))"

fun frames ::
  "Lap list \<Rightarrow> RaceControl list \<Rightarrow> int \<Rightarrow> LapCompletion list \<Rightarrow> Driver list \<Rightarrow>
   rat \<Rightarrow> rat \<Rightarrow> rat \<Rightarrow> nat list \<Rightarrow> DriverStates \<Rightarrow> PositionChartData list" where
  \<comment> \<open>The loop \<^verbatim>\<open>for (let i = 0; i <= timeIntervals; i++)\<close> over the values of \<open>i\<close> that remain;
      \<^verbatim>\<open>currentTime\<close> is \<open>frameTime startTime timeStep i\<close> and \<^verbatim>\<open>globalProgress\<close> is
      \<open>i * raceProgressPerFrame\<close>.\<close>
  "frames laps raceControl maxLap completions finishing startTime timeStep perFrame [] states = []"
| "frames laps raceControl maxLap completions finishing startTime timeStep perFrame (i # rest) states =
     (case frameAt laps raceControl maxLap finishing
             (frameTime startTime timeStep i) (of_nat i * perFrame)
             (fold (applyCompletion laps (frameTime startTime timeStep i)) completions states) of
        (frame, states') \<Rightarrow>
          frame # frames laps raceControl maxLap completions finishing startTime timeStep perFrame
                    rest states')"

definition startTime_of :: "LapCompletion list \<Rightarrow> int \<Rightarrow> int" where
  "startTime_of completions now0 =
     (case completions of [] \<Rightarrow> now0 | c # _ \<Rightarrow> LapCompletion.timestamp c)"

definition endTime_of :: "LapCompletion list \<Rightarrow> int \<Rightarrow> int" where
  "endTime_of completions now1 =
     (if completions = [] then now1 + 1000 else LapCompletion.timestamp (last completions))"

definition processRaceData ::
  "Driver list \<Rightarrow> Position list \<Rightarrow> Lap list \<Rightarrow> (int \<rightharpoonup> int) \<Rightarrow> RaceControl list \<Rightarrow>
   int \<Rightarrow> int \<Rightarrow> PositionChartData list" where
  \<comment> \<open>\<open>now0\<close> and \<open>now1\<close> are the two readings of \<^verbatim>\<open>Date.now()\<close>, used only when no lap
      completion exists.\<close>
  "processRaceData drivers positions' laps qualifyingPositions raceControl now0 now1 =
     (let maxLap = maxLap_of laps;
          finishing = finishingDrivers drivers laps;
          completions = allLapCompletions drivers positions' laps qualifyingPositions;
          timeIntervals = timeIntervals_of laps;
          startTime = of_int (startTime_of completions now0);
          endTime = of_int (endTime_of completions now1);
          timeStep = round_double (round_double (endTime - startTime) / of_int timeIntervals);
          raceProgressPerFrame = 1 / of_int timeIntervals
      in frames laps raceControl maxLap completions finishing startTime timeStep
           raceProgressPerFrame [0 ..< Suc (nat timeIntervals)]
           (initialStates qualifyingPositions finishing))"

subsection \<open>interpolateDriverPositions\<close>

definition interpolateDriverPositions ::
  "PositionChartData option \<Rightarrow> PositionChartData \<Rightarrow> rat \<Rightarrow> ChartPosition list" where
  "interpolateDriverPositions prevFrame currentFrame ratio =
     (case prevFrame of
        None \<Rightarrow> PositionChartData.positions currentFrame
      | Some prev \<Rightarrow>
          if ratio \<ge> 1 then PositionChartData.positions currentFrame
          else map (\<lambda>currentDriver.
                 case find (\<lambda>p. ChartPosition.driver_number p =
                                 ChartPosition.driver_number currentDriver)
                        (PositionChartData.positions prev) of
                   None \<Rightarrow> currentDriver
                 | Some prevDriver \<Rightarrow>
                     currentDriver
                       \<lparr> ChartPosition.progress :=
                           ChartPosition.progress prevDriver +
                           (ChartPosition.progress currentDriver -
                            ChartPosition.progress prevDriver) * ratio,
                         ChartPosition.interpolated_position :=
                           Some (of_int (ChartPosition.position prevDriver) +
                                 of_int (ChartPosition.position currentDriver -
                                         ChartPosition.position prevDriver) * ratio),
                         ChartPosition.position_change :=
                           Some (ChartPosition.position currentDriver -
                                 ChartPosition.position prevDriver) \<rparr>)
               (PositionChartData.positions currentFrame))"

section \<open>Championship standings (services/openf1)\<close>

subsection \<open>Numbers that may be NaN, and sorting with a comparator\<close>

text \<open>
  A points total is a JavaScript number that can become NaN (adding \<^verbatim>\<open>undefined\<close>, read from the
  points table at an index below 0): \<open>None\<close> stands for NaN.
\<close>

definition js_add :: "int option \<Rightarrow> int option \<Rightarrow> int option" where
  "js_add a b = (case (a, b) of (Some x, Some y) \<Rightarrow> Some (x + y) | _ \<Rightarrow> None)"

definition js_sub :: "int option \<Rightarrow> int option \<Rightarrow> int option" where
  "js_sub a b = (case (a, b) of (Some x, Some y) \<Rightarrow> Some (x - y) | _ \<Rightarrow> None)"

definition js_neq :: "int option \<Rightarrow> int option \<Rightarrow> bool" where
  \<comment> \<open>\<^verbatim>\<open>a !== b\<close>: NaN differs from everything, itself included.\<close>
  "js_neq a b = (case (a, b) of (Some x, Some y) \<Rightarrow> x \<noteq> y | _ \<Rightarrow> True)"

definition compareStats :: "int option \<times> int \<times> int \<Rightarrow> int option \<times> int \<times> int \<Rightarrow> int" where
  \<comment> \<open>The comparator of both standings tables, on (points, wins, podiums) of \<open>a\<close> and \<open>b\<close>;
      a NaN result counts as 0 for \<^verbatim>\<open>sort\<close>.\<close>
  "compareStats a b =
     (case (a, b) of ((pa, wa, da), (pb, wb, db)) \<Rightarrow>
        if js_neq pb pa then (case js_sub pb pa of None \<Rightarrow> 0 | Some v \<Rightarrow> v)
        else if wb \<noteq> wa then wb - wa
        else db - da)"

fun insert_by :: "('a \<Rightarrow> 'a \<Rightarrow> int) \<Rightarrow> 'a \<Rightarrow> 'a list \<Rightarrow> 'a list" where
  "insert_by cmp x [] = [x]"
| "insert_by cmp x (y # ys) = (if cmp x y \<le> 0 then x # y # ys else y # insert_by cmp x ys)"

definition sort_by :: "('a \<Rightarrow> 'a \<Rightarrow> int) \<Rightarrow> 'a list \<Rightarrow> 'a list" where
  \<comment> \<open>\<^verbatim>\<open>xs.sort(cmp)\<close> as the stable insertion sort: \<open>a\<close> stays before \<open>b\<close> unless
      \<open>cmp a b > 0\<close>. Where the comparator is a total preorder (no NaN is compared) this
      is the list every stable sort returns.\<close>
  "sort_by cmp xs = foldr (insert_by cmp) xs []"

subsection \<open>Selecting the race sessions\<close>

definition toLowerCase :: "string \<Rightarrow> string" where
  \<comment> \<open>On the ASCII letters.\<close>
  "toLowerCase s =
     map (\<lambda>c. let n = (of_char c :: nat) in if 65 \<le> n \<and> n \<le> 90 then char_of (n + 32) else c) s"

fun str_includes :: "string \<Rightarrow> string \<Rightarrow> bool" where
  "str_includes [] needle = (needle = [])"
| "str_includes (c # cs) needle = (take (length needle) (c # cs) = needle \<or> str_includes cs needle)"

definition isRaceSession :: "Session \<Rightarrow> bool" where
  "isRaceSession session =
     (str_includes (toLowerCase (Session.session_name session)) ''race'' \<and>
      \<not> str_includes (toLowerCase (Session.session_name session)) ''sprint'')"

subsection \<open>Data\<close>

record DriverStat =
  driver :: Driver
  points :: "int option"
  wins :: int
  podiums :: int

record ConstructorStat =
  team_name :: string
  team_colour :: string
  points :: "int option"
  wins :: int
  podiums :: int
  drivers :: "int list"

record DriverStanding =
  position :: int
  driver_number :: int
  name_acronym :: string
  full_name :: string
  team_name :: string
  team_colour :: string
  points :: "int option"
  wins :: int
  podiums :: int

record ConstructorDriver =
  driver_number :: int
  name_acronym :: string
  points :: int

record ConstructorStanding =
  position :: int
  team_name :: string
  team_colour :: string
  points :: "int option"
  wins :: int
  podiums :: int
  drivers :: "ConstructorDriver list"

record ChampionshipData =
  drivers :: "DriverStanding list"
  constructors :: "ConstructorStanding list"
  last_updated :: int

text \<open>
  The local state of \<^verbatim>\<open>getChampionshipStandings\<close>: its two maps, and the session keys that
  \<^verbatim>\<open>console.warn\<close> reported.
\<close>

record Aggregation =
  driverStats :: "(int \<times> DriverStat) list"
  constructorStats :: "(string \<times> ConstructorStat) list"
  warnings :: "int list"

datatype error = HttpError int | NetworkError | TypeError

text \<open>
  What a request resolves to is the parsed body of the response, whatever it is. A body is an
  array whose elements are records or \<^verbatim>\<open>null\<close>, or it is no array. Reading a field of \<^verbatim>\<open>null\<close>
  and calling \<^verbatim>\<open>forEach\<close> or \<^verbatim>\<open>find\<close> on a body that is no array throw a \<^verbatim>\<open>TypeError\<close>.
\<close>

datatype 'a body = NotArray | Array "'a option list"

fun find_js :: "('a \<Rightarrow> bool) \<Rightarrow> 'a option list \<Rightarrow> error + 'a option" where
  \<comment> \<open>\<^verbatim>\<open>xs.find(x => ...)\<close> with a callback that reads fields of \<open>x\<close>: the elements are visited in
      order up to the first match, and a \<^verbatim>\<open>null\<close> on the way throws.\<close>
  "find_js P [] = Inr None"
| "find_js P (None # xs) = Inl TypeError"
| "find_js P (Some x # xs) = (if P x then Inr (Some x) else find_js P xs)"

subsection \<open>One race session\<close>

text \<open>
  First on arrays of records, where nothing throws; then on the bodies as they arrive.
\<close>

definition finalPositions_step :: "Position list \<Rightarrow> Position \<Rightarrow> (int \<times> int) list \<Rightarrow> (int \<times> int) list" where
  \<comment> \<open>The body of \<^verbatim>\<open>positions.forEach(pos => ...)\<close>. The date of a sample that \<^verbatim>\<open>find\<close> does not
      find is the invalid date, greater than which nothing is.\<close>
  "finalPositions_step positions' pos finalPositions =
     (let existing = map_of finalPositions (Position.driver_number pos)
      in if (case existing of None \<Rightarrow> True | Some e \<Rightarrow> e = 0) \<or>
            (case find (\<lambda>p. Position.driver_number p = Position.driver_number pos \<and>
                             Some (Position.position p) = existing) positions' of
               None \<Rightarrow> False
             | Some p \<Rightarrow> Position.date pos > Position.date p)
         then AList.update (Position.driver_number pos) (Position.position pos) finalPositions
         else finalPositions)"

definition finalPositions_of :: "Position list \<Rightarrow> (int \<times> int) list" where
  "finalPositions_of positions' = fold (finalPositions_step positions') positions' []"

definition pointsSystem :: "int list" where
  "pointsSystem = [25, 18, 15, 12, 10, 8, 6, 4, 2, 1]"

definition points_for :: "int \<Rightarrow> int option" where
  \<comment> \<open>\<^verbatim>\<open>position <= pointsSystem.length ? pointsSystem[position - 1] : 0\<close>; the table read
      below index 0 is undefined, which makes the total NaN.\<close>
  "points_for p =
     (if p \<le> int (length pointsSystem)
      then (if 1 \<le> p then Some (pointsSystem ! nat (p - 1)) else None)
      else Some 0)"

definition set_add :: "'a \<Rightarrow> 'a list \<Rightarrow> 'a list" where
  \<comment> \<open>\<^verbatim>\<open>Set.prototype.add\<close> on a set kept in insertion order.\<close>
  "set_add x xs = (if x \<in> set xs then xs else xs @ [x])"

definition awardTo :: "Driver \<Rightarrow> int \<times> int \<Rightarrow> Aggregation \<Rightarrow> Aggregation" where
  \<comment> \<open>The body of \<^verbatim>\<open>finalPositions.forEach((position, driverNumber) => ...)\<close> after
      \<^verbatim>\<open>if (!driver) return\<close>, for the driver record found.\<close>
  "awardTo drv entry agg =
     (case entry of (driverNumber, pos) \<Rightarrow>
          (let pts = points_for pos;
               isWin = (pos = 1);
               isPodium = (pos \<le> 3);
               ds0 = (if map_of (driverStats agg) driverNumber = None
                      then AList.update driverNumber
                             \<lparr> DriverStat.driver = drv, DriverStat.points = Some 0,
                               DriverStat.wins = 0, DriverStat.podiums = 0 \<rparr>
                             (driverStats agg)
                      else driverStats agg);
               ds1 = (case map_of ds0 driverNumber of
                        None \<Rightarrow> ds0
                      | Some driverStat \<Rightarrow>
                          AList.update driverNumber
                            (driverStat
                               \<lparr> DriverStat.points := js_add (DriverStat.points driverStat) pts,
                                 DriverStat.wins :=
                                   (if isWin then DriverStat.wins driverStat + 1
                                    else DriverStat.wins driverStat),
                                 DriverStat.podiums :=
                                   (if isPodium then DriverStat.podiums driverStat + 1
                                    else DriverStat.podiums driverStat) \<rparr>)
                            ds0);
               cs0 = (if map_of (constructorStats agg) (Driver.team_name drv) = None
                      then AList.update (Driver.team_name drv)
                             \<lparr> ConstructorStat.team_name = Driver.team_name drv,
                               ConstructorStat.team_colour = Driver.team_colour drv,
                               ConstructorStat.points = Some 0,
                               ConstructorStat.wins = 0,
                               ConstructorStat.podiums = 0,
                               ConstructorStat.drivers = [] \<rparr>
                             (constructorStats agg)
                      else constructorStats agg);
               cs1 = (case map_of cs0 (Driver.team_name drv) of
                        None \<Rightarrow> cs0
                      | Some constructorStat \<Rightarrow>
                          AList.update (Driver.team_name drv)
                            (constructorStat
                               \<lparr> ConstructorStat.points :=
                                   js_add (ConstructorStat.points constructorStat) pts,
                                 ConstructorStat.wins :=
                                   (if isWin then ConstructorStat.wins constructorStat + 1
                                    else ConstructorStat.wins constructorStat),
                                 ConstructorStat.podiums :=
                                   (if isPodium then ConstructorStat.podiums constructorStat + 1
                                    else ConstructorStat.podiums constructorStat),
                                 ConstructorStat.drivers :=
                                   set_add driverNumber (ConstructorStat.drivers constructorStat) \<rparr>)
                            cs0)
           in agg \<lparr> driverStats := ds1, constructorStats := cs1 \<rparr>))"



text \<open>The same statements on the bodies, with what they throw.\<close>

definition finalPositions_step_js ::
  "Position option list \<Rightarrow> Position \<Rightarrow> (int \<times> int) list \<Rightarrow> error + (int \<times> int) list" where
  "finalPositions_step_js positions' pos finalPositions =
     (let existing = map_of finalPositions (Position.driver_number pos)
      in if (case existing of None \<Rightarrow> True | Some e \<Rightarrow> e = 0)
         then Inr (AList.update (Position.driver_number pos) (Position.position pos) finalPositions)
         else (case find_js (\<lambda>p. Position.driver_number p = Position.driver_number pos \<and>
                                  Some (Position.position p) = existing) positions' of
                 Inl e \<Rightarrow> Inl e
               | Inr None \<Rightarrow> Inr finalPositions
               | Inr (Some p) \<Rightarrow>
                   Inr (if Position.date pos > Position.date p
                        then AList.update (Position.driver_number pos) (Position.position pos)
                               finalPositions
                        else finalPositions)))"

fun finalPositions_loop ::
  "Position option list \<Rightarrow> Position option list \<Rightarrow> (int \<times> int) list \<Rightarrow> error + (int \<times> int) list"
  where
  \<comment> \<open>\<^verbatim>\<open>positions.forEach(pos => ...)\<close> over the elements that remain.\<close>
  "finalPositions_loop positions' [] finalPositions = Inr finalPositions"
| "finalPositions_loop positions' (None # rest) finalPositions = Inl TypeError"
| "finalPositions_loop positions' (Some pos # rest) finalPositions =
     (case finalPositions_step_js positions' pos finalPositions of
        Inl e \<Rightarrow> Inl e
      | Inr finalPositions' \<Rightarrow> finalPositions_loop positions' rest finalPositions')"

definition findDriver :: "Driver body \<Rightarrow> int \<Rightarrow> error + Driver option" where
  \<comment> \<open>\<^verbatim>\<open>drivers.find(d => d.driver_number === driverNumber)\<close>\<close>
  "findDriver drivers' driverNumber =
     (case drivers' of
        NotArray \<Rightarrow> Inl TypeError
      | Array ds \<Rightarrow> find_js (\<lambda>d. Driver.driver_number d = driverNumber) ds)"

fun awardLoop :: "Driver body \<Rightarrow> (int \<times> int) list \<Rightarrow> Aggregation \<Rightarrow> Aggregation \<times> error option" where
  \<comment> \<open>\<^verbatim>\<open>finalPositions.forEach(...)\<close> over the entries that remain: the maps as the loop leaves
      them, and the error it threw, if any. What was added before a throw stays.\<close>
  "awardLoop drivers' [] agg = (agg, None)"
| "awardLoop drivers' (entry # rest) agg =
     (case findDriver drivers' (fst entry) of
        Inl e \<Rightarrow> (agg, Some e)
      | Inr None \<Rightarrow> awardLoop drivers' rest agg
      | Inr (Some drv) \<Rightarrow> awardLoop drivers' rest (awardTo drv entry agg))"

definition processResponses ::
  "Driver body \<Rightarrow> Position body \<Rightarrow> Aggregation \<Rightarrow> Aggregation \<times> error option" where
  \<comment> \<open>The statements of the \<^verbatim>\<open>try\<close> block after the two requests.\<close>
  "processResponses drivers' positions' agg =
     (case positions' of
        NotArray \<Rightarrow> (agg, Some TypeError)
      | Array ps \<Rightarrow>
          (case finalPositions_loop ps ps [] of
             Inl e \<Rightarrow> (agg, Some e)
           | Inr finalPositions \<Rightarrow> awardLoop drivers' finalPositions agg))"

subsection \<open>The season\<close>

text \<open>
  The two requests of a session are functions from the session key to the body received, or to
  the error of a rejected request. \<^verbatim>\<open>Promise.all\<close> rejects when either does. Whatever is thrown
  inside the \<^verbatim>\<open>try\<close> block is caught and reported with \<^verbatim>\<open>console.warn\<close>; the loop goes on.
\<close>

definition trySession ::
  "(int \<Rightarrow> error + Driver body) \<Rightarrow> (int \<Rightarrow> error + Position body) \<Rightarrow> Session \<Rightarrow>
   Aggregation \<Rightarrow> Aggregation" where
  \<comment> \<open>The \<^verbatim>\<open>try\<close> statement of one iteration.\<close>
  "trySession getDrivers getPositions raceSession agg =
     (case (getDrivers (Session.session_key raceSession),
            getPositions (Session.session_key raceSession)) of
        (Inr drivers', Inr positions') \<Rightarrow>
          (case processResponses drivers' positions' agg of
             (agg', None) \<Rightarrow> agg'
           | (agg', Some e) \<Rightarrow>
               agg' \<lparr> warnings := warnings agg' @ [Session.session_key raceSession] \<rparr>)
      | _ \<Rightarrow> agg \<lparr> warnings := warnings agg @ [Session.session_key raceSession] \<rparr>)"

fun raceLoop ::
  "(int \<Rightarrow> error + Driver body) \<Rightarrow> (int \<Rightarrow> error + Position body) \<Rightarrow> Session list \<Rightarrow>
   Aggregation \<Rightarrow> Aggregation" where
  "raceLoop getDrivers getPositions [] agg = agg"
| "raceLoop getDrivers getPositions (raceSession # rest) agg =
     raceLoop getDrivers getPositions rest (trySession getDrivers getPositions raceSession agg)"

definition driverRows :: "(int \<times> DriverStat) list \<Rightarrow> DriverStanding list" where
  \<comment> \<open>The entries of the map as standings, before they are sorted.\<close>
  "driverRows stats =
     map (\<lambda>(driverNumber, stat).
            \<lparr> DriverStanding.position = 0,
              DriverStanding.driver_number = driverNumber,
              DriverStanding.name_acronym = Driver.name_acronym (DriverStat.driver stat),
              DriverStanding.full_name = Driver.full_name (DriverStat.driver stat),
              DriverStanding.team_name = Driver.team_name (DriverStat.driver stat),
              DriverStanding.team_colour = Driver.team_colour (DriverStat.driver stat),
              DriverStanding.points = DriverStat.points stat,
              DriverStanding.wins = DriverStat.wins stat,
              DriverStanding.podiums = DriverStat.podiums stat \<rparr>) stats"

definition driverKey :: "DriverStanding \<Rightarrow> int option \<times> int \<times> int" where
  "driverKey a = (DriverStanding.points a, DriverStanding.wins a, DriverStanding.podiums a)"

definition driverStandings :: "(int \<times> DriverStat) list \<Rightarrow> DriverStanding list" where
  "driverStandings stats =
     map (\<lambda>(index, row). row \<lparr> DriverStanding.position := int index + 1 \<rparr>)
       (List.enumerate 0
          (sort_by (\<lambda>a b. compareStats (driverKey a) (driverKey b)) (driverRows stats)))"

definition constructorRows ::
  "(int \<times> DriverStat) list \<Rightarrow> (string \<times> ConstructorStat) list \<Rightarrow> ConstructorStanding list" where
  "constructorRows dstats cstats =
     map (\<lambda>(teamName, stat).
            \<lparr> ConstructorStanding.position = 0,
              ConstructorStanding.team_name = teamName,
              ConstructorStanding.team_colour = ConstructorStat.team_colour stat,
              ConstructorStanding.points = ConstructorStat.points stat,
              ConstructorStanding.wins = ConstructorStat.wins stat,
              ConstructorStanding.podiums = ConstructorStat.podiums stat,
              ConstructorStanding.drivers =
                map (\<lambda>driverNumber.
                       \<lparr> ConstructorDriver.driver_number = driverNumber,
                         ConstructorDriver.name_acronym =
                           (case map_of dstats driverNumber of
                              None \<Rightarrow> ''D'' @ string_of_int driverNumber
                            | Some driverStat \<Rightarrow>
                                str_or (Driver.name_acronym (DriverStat.driver driverStat))
                                       (''D'' @ string_of_int driverNumber)),
                         ConstructorDriver.points =
                           or_else (Option.bind (map_of dstats driverNumber) DriverStat.points) 0 \<rparr>)
                  (ConstructorStat.drivers stat) \<rparr>) cstats"

definition constructorKey :: "ConstructorStanding \<Rightarrow> int option \<times> int \<times> int" where
  "constructorKey a =
     (ConstructorStanding.points a, ConstructorStanding.wins a, ConstructorStanding.podiums a)"

definition constructorStandings ::
  "(int \<times> DriverStat) list \<Rightarrow> (string \<times> ConstructorStat) list \<Rightarrow> ConstructorStanding list" where
  "constructorStandings dstats cstats =
     map (\<lambda>(index, row). row \<lparr> ConstructorStanding.position := int index + 1 \<rparr>)
       (List.enumerate 0
          (sort_by (\<lambda>a b. compareStats (constructorKey a) (constructorKey b))
             (constructorRows dstats cstats)))"

definition aggregate ::
  "(int \<Rightarrow> error + Driver body) \<Rightarrow> (int \<Rightarrow> error + Position body) \<Rightarrow> Session list \<Rightarrow> Aggregation"
  where
  \<comment> \<open>The maps after the loop over the race sessions of the year.\<close>
  "aggregate getDrivers getPositions sessions =
     raceLoop getDrivers getPositions (filter isRaceSession sessions)
       \<lparr> driverStats = [], constructorStats = [], warnings = [] \<rparr>"

definition getChampionshipStandings ::
  "(error + Session list) \<Rightarrow> (int \<Rightarrow> error + Driver body) \<Rightarrow> (int \<Rightarrow> error + Position body) \<Rightarrow>
   int \<Rightarrow> error + ChampionshipData \<times> int list" where
  \<comment> \<open>\<open>getSessions\<close> is the outcome of \<^verbatim>\<open>this.getSessions(year)\<close>, whose error is rethrown; \<open>now\<close>
      is the clock reading of \<^verbatim>\<open>last_updated\<close>. The second component is what was warned of.\<close>
  "getChampionshipStandings getSessions getDrivers getPositions now =
     (case getSessions of
        Inl e \<Rightarrow> Inl e
      | Inr sessions \<Rightarrow>
          (let agg = aggregate getDrivers getPositions sessions
           in Inr (\<lparr> ChampionshipData.drivers = driverStandings (driverStats agg),
                     ChampionshipData.constructors =
                       constructorStandings (driverStats agg) (constructorStats agg),
                     ChampionshipData.last_updated = now \<rparr>,
                   warnings agg)))"

section \<open>A small race and a small season\<close>

text \<open>
  Three drivers start in grid order 1, 44, 16. Driver 44 retires after two laps; the other two
  complete four laps. Position samples arrive when the running order changes.
\<close>

definition mkDriver :: "int \<Rightarrow> string \<Rightarrow> string \<Rightarrow> Driver" where
  "mkDriver n acronym team =
     \<lparr> Driver.driver_number = n, Driver.full_name = acronym, Driver.name_acronym = acronym,
       Driver.team_colour = ''3671C6'', Driver.team_name = team \<rparr>"

definition mkLap :: "int \<Rightarrow> int \<Rightarrow> int \<Rightarrow> rat option \<Rightarrow> Lap" where
  "mkLap n lap start duration =
     \<lparr> Lap.date_start = start, Lap.driver_number = n, Lap.duration_sector_1 = None,
       Lap.duration_sector_2 = None, Lap.duration_sector_3 = None, Lap.is_pit_out_lap = False,
       Lap.lap_duration = duration, Lap.lap_number = lap \<rparr>"

definition mkPosition :: "int \<Rightarrow> int \<Rightarrow> int \<Rightarrow> Position" where
  "mkPosition t n p = \<lparr> Position.date = t, Position.driver_number = n, Position.position = p \<rparr>"

definition race_drivers :: "Driver list" where
  "race_drivers = [mkDriver 1 ''VER'' ''Red Bull'', mkDriver 44 ''HAM'' ''Ferrari'',
                   mkDriver 16 ''LEC'' ''Ferrari'']"

definition race_grid :: "int \<rightharpoonup> int" where
  "race_grid = [1 \<mapsto> 1, 44 \<mapsto> 2, 16 \<mapsto> 3]"

definition race_laps :: "Lap list" where
  "race_laps =
     [mkLap 1 1 0 (Some 90), mkLap 44 1 1000 (Some 91), mkLap 16 1 2000 (Some 91),
      mkLap 1 2 90000 (Some 90), mkLap 44 2 92000 (Some 95), mkLap 16 2 93000 (Some 90),
      mkLap 1 3 180000 (Some 90), mkLap 16 3 183000 (Some 90),
      mkLap 1 4 270000 (Some 90), mkLap 16 4 273000 (Some 90)]"

definition race_positions :: "Position list" where
  "race_positions =
     [mkPosition 0 1 1, mkPosition 0 44 2, mkPosition 0 16 3,
      mkPosition 150000 16 3, mkPosition 182000 16 2]"

definition race_frames :: "PositionChartData list" where
  "race_frames = processRaceData race_drivers race_positions race_laps race_grid [] 0 0"

text \<open>
  Driver 23 has four lap records, the fourth still running (no duration yet): three completed
  laps.
\<close>

definition running_laps :: "Lap list" where
  "running_laps =
     [mkLap 23 1 0 (Some 90), mkLap 23 2 90000 (Some 90), mkLap 23 3 180000 (Some 90),
      mkLap 23 4 270000 None]"

text \<open>
  The small race with other position samples: driver 16 is sampled in first place at 250 s, and
  no sample of driver 1 lies within a minute of the start of a later lap.
\<close>

definition lead_positions :: "Position list" where
  "lead_positions = [mkPosition 0 1 1, mkPosition 0 16 3, mkPosition 250000 16 1]"

text \<open>
  A session dated at the epoch, with laps of a few milliseconds: driver 1 starts laps 1, 2, 3 and
  7 at 0, 20, 40 and 61 ms.
\<close>

definition early_laps :: "Lap list" where
  "early_laps =
     [mkLap 1 1 0 (Some 20), mkLap 1 2 20 (Some 20), mkLap 1 3 40 (Some 21),
      mkLap 1 7 61 (Some 20)]"

text \<open>
  The position samples of one driver in a race session, in the order received: first, then still
  first fifty seconds later, and a sample from the thirtieth second, when the driver ran second.
\<close>

definition session_positions :: "Position list" where
  "session_positions = [mkPosition 10000 1 1, mkPosition 50000 1 1, mkPosition 30000 1 2]"

section \<open>Notions used in the statements\<close>

text \<open>The progress baseline a state map records for a driver number.\<close>

definition baseline_of :: "DriverStates \<Rightarrow> int \<Rightarrow> rat" where
  "baseline_of states n = (case map_of states n of None \<Rightarrow> 0 | Some s \<Rightarrow> DriverState.baseline_progress s)"


text \<open>Every eligible driver has an entry in the state map.\<close>

definition has_states :: "Driver list \<Rightarrow> DriverStates \<Rightarrow> bool" where
  "has_states fin states = (\<forall>d \<in> set fin. map_of states (Driver.driver_number d) \<noteq> None)"

text \<open>
  Where a position value of driver \<open>n\<close> can come from: the qualifying grid, or the driver number
  when the grid has no entry (or the entry 0); or a position sample of the driver. And the state
  maps all of whose positions come from there.
\<close>

definition from_sources :: "Position list \<Rightarrow> (int \<rightharpoonup> int) \<Rightarrow> int \<Rightarrow> int \<Rightarrow> bool" where
  "from_sources ps q n v =
     (v = (case q n of None \<Rightarrow> n | Some g \<Rightarrow> if g \<noteq> 0 then g else n) \<or>
      (\<exists>p \<in> set ps. Position.driver_number p = n \<and> Position.position p = v))"

definition sourced_states :: "Position list \<Rightarrow> (int \<rightharpoonup> int) \<Rightarrow> DriverStates \<Rightarrow> bool" where
  "sourced_states ps q states =
     (\<forall>n st. map_of states n = Some st \<longrightarrow> from_sources ps q n (DriverState.position st))"

text \<open>What a frame shows of time and of each driver: number, position, progress, lap.\<close>

definition frame_summary :: "PositionChartData \<Rightarrow> int \<times> (int \<times> int \<times> rat \<times> int) list" where
  "frame_summary f =
     (PositionChartData.timestamp f,
      map (\<lambda>e. (ChartPosition.driver_number e, ChartPosition.position e,
                 ChartPosition.progress e, ChartPosition.current_lap_number e))
          (PositionChartData.positions f))"

definition lead_frames :: "PositionChartData list" where
  "lead_frames = processRaceData race_drivers lead_positions race_laps race_grid [] 0 0"

definition early_frames :: "PositionChartData list" where
  "early_frames = processRaceData [mkDriver 1 ''VER'' ''Red Bull''] [] early_laps Map.empty [] 0 0"

definition running_frames :: "PositionChartData list" where
  "running_frames =
     processRaceData [mkDriver 23 ''ALB'' ''Williams''] [] running_laps Map.empty [] 0 0"

text \<open>
  The rest of the frame loop, given the frame and the states of the current iteration; and one
  iteration, given its time.
\<close>

definition frames_cont ::
  "Lap list \<Rightarrow> RaceControl list \<Rightarrow> int \<Rightarrow> LapCompletion list \<Rightarrow> Driver list \<Rightarrow>
   rat \<Rightarrow> rat \<Rightarrow> rat \<Rightarrow> PositionChartData \<times> DriverStates \<Rightarrow> nat list \<Rightarrow> PositionChartData list"
  where
  "frames_cont laps rc maxLap completions finishing startTime timeStep perFrame p rest =
     fst p # frames laps rc maxLap completions finishing startTime timeStep perFrame rest (snd p)"

definition frames_at ::
  "Lap list \<Rightarrow> RaceControl list \<Rightarrow> int \<Rightarrow> LapCompletion list \<Rightarrow> Driver list \<Rightarrow>
   rat \<Rightarrow> rat \<Rightarrow> rat \<Rightarrow> rat \<Rightarrow> nat \<Rightarrow> nat list \<Rightarrow> DriverStates \<Rightarrow> PositionChartData list"
  where
  "frames_at laps rc maxLap completions finishing startTime timeStep perFrame t i rest states =
     frames_cont laps rc maxLap completions finishing startTime timeStep perFrame
       (frameAt laps rc maxLap finishing t (of_nat i * perFrame)
          (fold (applyCompletion laps t) completions states)) rest"


text \<open>The records of a body.\<close>

definition records :: "'a body \<Rightarrow> 'a list" where
  "records b = (case b of NotArray \<Rightarrow> [] | Array xs \<Rightarrow> List.map_filter (\<lambda>x. x) xs)"

text \<open>
  The awards of a session: a driver record and the final position scored for it, in the order
  of the final positions. There is none when a request fails or the positions cannot be read (the
  body is no array, or has a \<^verbatim>\<open>null\<close> element). Otherwise every final position whose driver number
  has a driver record is an award, up to the first final position for which the drivers cannot
  be searched (the body is no array, or a \<^verbatim>\<open>null\<close> element stands before any record of that number).
  A session throws when a request fails, the positions cannot be read, or the drivers cannot be
  searched for one of the final positions.
\<close>

fun awards_until :: "Driver body \<Rightarrow> (int \<times> int) list \<Rightarrow> (Driver \<times> int) list" where
  "awards_until drivers' [] = []"
| "awards_until drivers' (entry # rest) =
     (case findDriver drivers' (fst entry) of
        Inl e \<Rightarrow> []
      | Inr None \<Rightarrow> awards_until drivers' rest
      | Inr (Some drv) \<Rightarrow> (drv, snd entry) # awards_until drivers' rest)"

definition session_awards ::
  "(int \<Rightarrow> error + Driver body) \<Rightarrow> (int \<Rightarrow> error + Position body) \<Rightarrow> Session \<Rightarrow> (Driver \<times> int) list"
  where
  "session_awards getDrivers getPositions s =
     (case (getDrivers (Session.session_key s), getPositions (Session.session_key s)) of
        (Inr drivers', Inr (Array ps)) \<Rightarrow>
          (case finalPositions_loop ps ps [] of
             Inl e \<Rightarrow> []
           | Inr finalPositions \<Rightarrow> awards_until drivers' finalPositions)
      | _ \<Rightarrow> [])"

definition session_throws ::
  "(int \<Rightarrow> error + Driver body) \<Rightarrow> (int \<Rightarrow> error + Position body) \<Rightarrow> Session \<Rightarrow> bool" where
  "session_throws getDrivers getPositions s =
     (case (getDrivers (Session.session_key s), getPositions (Session.session_key s)) of
        (Inr drivers', Inr (Array ps)) \<Rightarrow>
          (case finalPositions_loop ps ps [] of
             Inl e \<Rightarrow> True
           | Inr finalPositions \<Rightarrow>
               list_ex (\<lambda>entry. isl (findDriver drivers' (fst entry))) finalPositions)
      | _ \<Rightarrow> True)"

definition season_awards ::
  "(int \<Rightarrow> error + Driver body) \<Rightarrow> (int \<Rightarrow> error + Position body) \<Rightarrow> Session list \<Rightarrow>
   (Driver \<times> int) list" where
  "season_awards getDrivers getPositions sessions =
     concat (map (session_awards getDrivers getPositions) (filter isRaceSession sessions))"

text \<open>
  The positions awarded to a driver number and to a team, and what they add up to: points
  (summed as JavaScript sums them, from 0), wins and podiums.
\<close>

definition awarded :: "(Driver \<times> int) list \<Rightarrow> int \<Rightarrow> int list" where
  "awarded awards n = map snd (filter (\<lambda>a. Driver.driver_number (fst a) = n) awards)"

definition team_awarded :: "(Driver \<times> int) list \<Rightarrow> string \<Rightarrow> int list" where
  "team_awarded awards t = map snd (filter (\<lambda>a. Driver.team_name (fst a) = t) awards)"

definition totals :: "int list \<Rightarrow> int option \<times> int \<times> int" where
  "totals ps =
     (fold (\<lambda>p acc. js_add acc (points_for p)) ps (Some 0),
      int (length (filter (\<lambda>p. p = 1) ps)),
      int (length (filter (\<lambda>p. p \<le> 3) ps)))"

text \<open>One award applied to the maps, and the entries the maps hold after a list of awards.\<close>

definition give :: "Driver \<times> int \<Rightarrow> Aggregation \<Rightarrow> Aggregation" where
  "give a agg = awardTo (fst a) (Driver.driver_number (fst a), snd a) agg"

definition driver_stat :: "(Driver \<times> int) list \<Rightarrow> int \<Rightarrow> DriverStat option" where
  "driver_stat awards n =
     (case filter (\<lambda>a. Driver.driver_number (fst a) = n) awards of
        [] \<Rightarrow> None
      | a # rest \<Rightarrow>
          Some \<lparr> DriverStat.driver = fst a,
                 DriverStat.points = fst (totals (awarded awards n)),
                 DriverStat.wins = fst (snd (totals (awarded awards n))),
                 DriverStat.podiums = snd (snd (totals (awarded awards n))) \<rparr>)"

definition constructor_stat :: "(Driver \<times> int) list \<Rightarrow> string \<Rightarrow> ConstructorStat option" where
  "constructor_stat awards t =
     (case filter (\<lambda>a. Driver.team_name (fst a) = t) awards of
        [] \<Rightarrow> None
      | a # rest \<Rightarrow>
          Some \<lparr> ConstructorStat.team_name = t,
                 ConstructorStat.team_colour = Driver.team_colour (fst a),
                 ConstructorStat.points = fst (totals (team_awarded awards t)),
                 ConstructorStat.wins = fst (snd (totals (team_awarded awards t))),
                 ConstructorStat.podiums = snd (snd (totals (team_awarded awards t))),
                 ConstructorStat.drivers =
                   fold set_add (map (Driver.driver_number \<circ> fst) (a # rest)) [] \<rparr>)"

text \<open>
  The specification's final classification, in its own words: the position of the driver's
  chronologically latest sample.
\<close>

definition latest_sample :: "Position list \<Rightarrow> int \<Rightarrow> Position option" where
  "latest_sample ps n =
     (case filter (\<lambda>p. Position.driver_number p = n) ps of
        [] \<Rightarrow> None
      | p # rest \<Rightarrow>
          Some (fold (\<lambda>q best. if Position.date q > Position.date best then q else best) rest p))"



text \<open>
  A season of five sessions, three of them races. The requests of race 103 fail. In race 101
  a position sample of driver 7 arrives, who is not in the drivers list of the session.
\<close>

definition mkSession :: "int \<Rightarrow> string \<Rightarrow> Session" where
  "mkSession k name = \<lparr> Session.session_key = k, Session.session_name = name \<rparr>"

definition season_sessions :: "Session list" where
  "season_sessions = [mkSession 101 ''Race'', mkSession 102 ''Sprint'', mkSession 103 ''Race'',
                      mkSession 104 ''Race'', mkSession 105 ''Qualifying'']"

definition season_drivers :: "int \<Rightarrow> error + Driver body" where
  "season_drivers k = (if k = 103 then Inl (HttpError 500) else Inr (Array (map Some race_drivers)))"

definition race_101 :: "Position list" where
  "race_101 = [mkPosition 0 1 1, mkPosition 0 44 2, mkPosition 0 16 3, mkPosition 0 7 4]"

definition season_positions :: "int \<Rightarrow> error + Position body" where
  "season_positions k =
     (if k = 101 then Inr (Array (map Some race_101))
      else if k = 104
        then Inr (Array (map Some [mkPosition 0 1 2, mkPosition 0 44 1, mkPosition 0 16 3]))
      else Inr (Array []))"

definition season_aggregate :: Aggregation where
  "season_aggregate = aggregate season_drivers season_positions season_sessions"

definition season_data :: ChampionshipData where
  "season_data =
     \<lparr> ChampionshipData.drivers = driverStandings (driverStats season_aggregate),
       ChampionshipData.constructors =
         constructorStandings (driverStats season_aggregate) (constructorStats season_aggregate),
       ChampionshipData.last_updated = 0 \<rparr>"

text \<open>
  A season of one race, whose drivers array has a \<^verbatim>\<open>null\<close> for its second element. The final
  positions are first (driver 1), second (driver 44) and third (driver 16).
\<close>

definition broken_drivers :: "int \<Rightarrow> error + Driver body" where
  "broken_drivers k =
     Inr (Array [Some (mkDriver 1 ''VER'' ''Red Bull''), None, Some (mkDriver 16 ''LEC'' ''Ferrari'')])"

definition broken_positions :: "int \<Rightarrow> error + Position body" where
  "broken_positions k =
     Inr (Array (map Some [mkPosition 0 1 1, mkPosition 0 44 2, mkPosition 0 16 3]))"


text \<open>What a call returns of the driver table, and what it warned of.\<close>

definition driver_table ::
  "error + ChampionshipData \<times> int list \<Rightarrow> (int \<times> int \<times> int option \<times> int \<times> int) list" where
  "driver_table r =
     (case r of
        Inl e \<Rightarrow> []
      | Inr result \<Rightarrow>
          map (\<lambda>a. (DriverStanding.driver_number a, DriverStanding.position a,
                     DriverStanding.points a, DriverStanding.wins a, DriverStanding.podiums a))
              (ChampionshipData.drivers (fst result)))"

definition warned :: "error + ChampionshipData \<times> int list \<Rightarrow> int list" where
  "warned r = (case r of Inl e \<Rightarrow> [] | Inr result \<Rightarrow> snd result)"

text \<open>Every points total of the two maps is a number.\<close>

definition numbers_only :: "Aggregation \<Rightarrow> bool" where
  "numbers_only agg =
     ((\<forall>e \<in> set (driverStats agg). DriverStat.points (snd e) \<noteq> None) \<and>
      (\<forall>e \<in> set (constructorStats agg). ConstructorStat.points (snd e) \<noteq> None))"

text \<open>
  The samples of each driver stand in the array in strictly increasing order of date, and the
  sample of a driver that stands last in the array.
\<close>

definition in_date_order :: "Position list \<Rightarrow> bool" where
  "in_date_order ps =
     (\<forall>xs y ys. ps = xs @ y # ys \<longrightarrow>
        (\<forall>p \<in> set xs. Position.driver_number p = Position.driver_number y
                       \<longrightarrow> Position.date p < Position.date y))"

definition last_sample :: "Position list \<Rightarrow> int \<Rightarrow> Position option" where
  "last_sample xs n =
     (if filter (\<lambda>p. Position.driver_number p = n) xs = [] then None
      else Some (last (filter (\<lambda>p. Position.driver_number p = n) xs)))"

section \<open>Rounding to a double\<close>

lemma round_even_of_int: "round_even (of_int z) = z"
  by (simp add: round_even_def)

lemma round_even_error: "\<bar>of_int (round_even q) - q\<bar> \<le> 1 / 2"
proof -
  have "of_int \<lfloor>q\<rfloor> \<le> q" "q < of_int \<lfloor>q\<rfloor> + 1" by linarith+
  then show ?thesis
    by (auto simp: round_even_def Let_def abs_le_iff)
qed

lemma bitlen_lower:
  assumes "0 < a"
  shows "(2::rat) powi (bitlen a - 1) \<le> of_int a"
proof -
  from bitlen_bounds [OF assms] have "2 ^ nat (bitlen a - 1) \<le> a" by simp
  then have "(of_int (2 ^ nat (bitlen a - 1)) :: rat) \<le> of_int a"
    by (simp only: of_int_le_iff)
  moreover have "0 \<le> bitlen a - 1"
    using assms bitlen_nonneg [of a] bitlen_eq_zero_iff [of a] by linarith
  ultimately show ?thesis by (simp add: power_int_def)
qed

lemma bitlen_upper:
  assumes "0 < b"
  shows "(of_int b :: rat) < 2 powi bitlen b"
proof -
  from bitlen_bounds [OF assms] have "b < 2 ^ nat (bitlen b)" by simp
  then have "(of_int b :: rat) < of_int (2 ^ nat (bitlen b))"
    by (simp only: of_int_less_iff)
  moreover have "0 \<le> bitlen b" by (simp add: bitlen_nonneg)
  ultimately show ?thesis by (simp add: power_int_def)
qed

lemma exponent_of_le:
  assumes "x \<noteq> 0"
  shows "2 powi exponent_of x \<le> \<bar>x\<bar>"
proof -
  obtain a b where q: "quotient_of \<bar>x\<bar> = (a, b)" by (cases "quotient_of \<bar>x\<bar>")
  then have b: "0 < b" and x: "\<bar>x\<bar> = of_int a / of_int b"
    using quotient_of_denom_pos quotient_of_div by blast+
  from assms have "0 < \<bar>x\<bar>" by simp
  with x b have a: "0 < a" by (simp add: zero_less_divide_iff)
  let ?k = "bitlen a - bitlen b"
  have "(2::rat) powi (?k - 1) = 2 powi (bitlen a - 1) / 2 powi bitlen b"
    by (simp add: power_int_diff)
  also have "\<dots> \<le> of_int a / 2 powi bitlen b"
    using bitlen_lower [OF a] by (simp add: divide_right_mono)
  also have "\<dots> \<le> of_int a / of_int b"
    using bitlen_upper [OF b] a b by (intro divide_left_mono) (simp_all add: less_imp_le)
  finally have "(2::rat) powi (?k - 1) \<le> \<bar>x\<bar>" by (simp only: x)
  then show ?thesis
    by (simp add: exponent_of_def q Let_def)
qed

lemma exponent_of_gt:
  assumes "x \<noteq> 0"
  shows "\<bar>x\<bar> < 2 powi (exponent_of x + 1)"
proof -
  obtain a b where q: "quotient_of \<bar>x\<bar> = (a, b)" by (cases "quotient_of \<bar>x\<bar>")
  then have b: "0 < b" and x: "\<bar>x\<bar> = of_int a / of_int b"
    using quotient_of_denom_pos quotient_of_div by blast+
  from assms have "0 < \<bar>x\<bar>" by simp
  with x b have a: "0 < a" by (simp add: zero_less_divide_iff)
  let ?k = "bitlen a - bitlen b"
  have "of_int a / of_int b < (2::rat) powi bitlen a / of_int b"
    using bitlen_upper [OF a] b by (simp add: divide_strict_right_mono)
  also have "\<dots> \<le> 2 powi bitlen a / 2 powi (bitlen b - 1)"
    using bitlen_lower [OF b] b by (intro divide_left_mono) simp_all
  also have "\<dots> = 2 powi (bitlen a - (bitlen b - 1))"
    by (subst power_int_diff) simp_all
  also have "bitlen a - (bitlen b - 1) = ?k + 1" by simp
  finally have "\<bar>x\<bar> < 2 powi (?k + 1)" by (simp only: x)
  moreover have "(2::rat) powi ?k \<le> 2 powi (?k + 1)"
    by (intro power_int_increasing) simp_all
  ultimately show ?thesis
    by (auto simp: exponent_of_def q Let_def not_le)
qed

lemma round_double_error: "\<bar>round_double x - x\<bar> \<le> \<bar>x\<bar> / 2 ^ 53"
proof (cases "x = 0")
  case True
  then show ?thesis by (simp add: round_double_def)
next
  case False
  let ?s = "(2::rat) powi (exponent_of x - 52)"
  have s: "0 < ?s" by simp
  have "round_double x - x = (of_int (round_even (x / ?s)) - x / ?s) * ?s"
    using False s by (simp add: round_double_def Let_def algebra_simps)
  then have "\<bar>round_double x - x\<bar> = \<bar>of_int (round_even (x / ?s)) - x / ?s\<bar> * ?s"
    using s by (simp add: abs_mult)
  also have "\<dots> \<le> 1 / 2 * ?s"
    using round_even_error [of "x / ?s"] s by (intro mult_right_mono) simp_all
  also have "\<dots> = 2 powi exponent_of x / 2 ^ 53"
    by (simp add: power_int_diff)
  also have "\<dots> \<le> \<bar>x\<bar> / 2 ^ 53"
    using exponent_of_le [OF False] by (simp add: divide_right_mono)
  finally show ?thesis .
qed

lemma round_double_of_int:
  assumes "\<bar>z\<bar> < 2 ^ 53"
  shows "round_double (of_int z) = of_int z"
proof (cases "z = 0")
  case True
  then show ?thesis by (simp add: round_double_def)
next
  case False
  let ?x = "of_int z :: rat"
  let ?e = "exponent_of ?x"
  from False have nz: "?x \<noteq> 0" by simp
  have "(2::rat) powi ?e \<le> \<bar>?x\<bar>" by (rule exponent_of_le [OF nz])
  also have "\<bar>?x\<bar> < 2 ^ 53"
    using assms by (metis of_int_abs of_int_less_iff of_int_numeral of_int_power)
  finally have "(2::rat) powi ?e < 2 powi 53" by simp
  then have e: "?e \<le> 52"
    by (smt (verit) power_int_increasing one_le_numeral not_less)
  define n where "n = nat (52 - ?e)"
  have "?e - 52 = - int n" using e by (simp add: n_def)
  then have "(2::rat) powi (?e - 52) = 2 powi (- int n)" by (simp only:)
  also have "\<dots> = 1 / 2 ^ n"
    by (simp add: power_int_minus inverse_eq_divide)
  finally have s: "(2::rat) powi (?e - 52) = 1 / 2 ^ n" .
  have "?x / (1 / 2 ^ n) = of_int (z * 2 ^ n)" by simp
  then have "of_int (round_even (?x / (1 / 2 ^ n))) * (1 / 2 ^ n) = ?x"
    by (simp only: round_even_of_int) simp
  then show ?thesis using nz by (simp add: round_double_def Let_def s)
qed


lemma abs_bound_add:
  fixes a b :: rat
  assumes "\<bar>a - b\<bar> \<le> e" and "\<bar>b\<bar> \<le> B"
  shows "\<bar>a\<bar> \<le> B + e"
  using assms by linarith

lemma abs_diff_triangle:
  fixes a b c :: rat
  assumes "\<bar>a - b\<bar> \<le> e" and "\<bar>b - c\<bar> \<le> e'"
  shows "\<bar>a - c\<bar> \<le> e + e'"
  using assms by linarith

lemma abs_diff_triangle_less:
  fixes a b c :: rat
  assumes "\<bar>a - b\<bar> < e" and "\<bar>b - c\<bar> \<le> e'"
  shows "\<bar>a - c\<bar> < e + e'"
  using assms by linarith

lemma grid_error:
  fixes S D d ts m c u N I :: rat
  assumes u: "0 \<le> u" "u \<le> 1 / 8"
    and N: "0 \<le> I" "I \<le> N" "0 < N"
    and h1: "\<bar>d - D\<bar> \<le> \<bar>D\<bar> * u"
    and h2: "\<bar>ts - d / N\<bar> \<le> \<bar>d / N\<bar> * u"
    and h3: "\<bar>m - I * ts\<bar> \<le> \<bar>I * ts\<bar> * u"
    and h4: "\<bar>c - (S + m)\<bar> \<le> \<bar>S + m\<bar> * u"
  shows "\<bar>c - (S + I * D / N)\<bar> \<le> (\<bar>S\<bar> + \<bar>D\<bar>) * (8 * u)"
proof -
  define A where "A = \<bar>D\<bar>"
  define a where "a = A * u"
  define b where "b = a * u"
  define s where "s = \<bar>S\<bar> * u"
  have A: "0 \<le> A" by (simp add: A_def)
  have a: "0 \<le> a" using A u by (simp add: a_def)
  have b: "0 \<le> b" "b \<le> a / 8"
  proof -
    show "0 \<le> b" using a u by (simp add: b_def)
    have "a * u \<le> a * (1 / 8)" using a u by (intro mult_left_mono) simp_all
    then show "b \<le> a / 8" by (simp add: b_def)
  qed
  have s: "0 \<le> s" using u by (simp add: s_def)
  have scale: "(A + k * a) * u = a + k * b" for k
    by (simp add: a_def b_def algebra_simps)
  have "\<bar>d - 0\<bar> \<le> A + a"
    using abs_diff_triangle [of d D "A * u" 0 A] h1 by (simp add: A_def a_def add.commute)
  then have b1: "\<bar>d\<bar> \<le> A + 1 * a" by simp
  have "\<bar>d / N\<bar> * u = \<bar>d\<bar> * u / N" using N by (simp add: abs_divide)
  also have "\<dots> \<le> (A + 1 * a) * u / N"
    using b1 u N by (intro divide_right_mono mult_right_mono) simp_all
  finally have "\<bar>d / N\<bar> * u \<le> (a + 1 * b) / N" by (simp only: scale)
  with h2 have e2: "\<bar>ts - d / N\<bar> \<le> (a + 1 * b) / N" by (rule order_trans)
  have "d / N - D / N = (d - D) / N" by (simp add: diff_divide_distrib)
  then have "\<bar>d / N - D / N\<bar> = \<bar>d - D\<bar> / N"
    using N by (simp add: abs_divide)
  also have "\<dots> \<le> a / N"
    using h1 N by (intro divide_right_mono) (simp_all add: A_def a_def)
  finally have e1: "\<bar>d / N - D / N\<bar> \<le> a / N" .
  have "\<bar>ts - D / N\<bar> \<le> (a + 1 * b) / N + a / N"
    using e2 e1 by (rule abs_diff_triangle)
  also have "\<dots> = (2 * a + b) / N"
    by (simp add: add_divide_distrib [symmetric])
  finally have b2: "\<bar>ts - D / N\<bar> \<le> (2 * a + b) / N" .
  have nn: "0 \<le> 2 * a + b" using a b by simp
  have "I * ts - I * D / N = I * (ts - D / N)" by (simp add: algebra_simps)
  then have "\<bar>I * ts - I * D / N\<bar> = \<bar>I\<bar> * \<bar>ts - D / N\<bar>" by (simp only: abs_mult)
  also have "\<dots> = I * \<bar>ts - D / N\<bar>" using N by simp
  also have "\<dots> \<le> I * ((2 * a + b) / N)"
    using b2 N by (intro mult_left_mono) simp_all
  also have "\<dots> = (I / N) * (2 * a + b)" by simp
  also have "\<dots> \<le> 1 * (2 * a + b)"
    using N nn by (intro mult_right_mono) simp_all
  finally have b3: "\<bar>I * ts - I * D / N\<bar> \<le> 2 * a + b" by simp
  have "\<bar>I * D / N\<bar> = (I / N) * A" using N by (simp add: abs_mult abs_divide A_def)
  also have "\<dots> \<le> 1 * A" using N A by (intro mult_right_mono) simp_all
  finally have b4: "\<bar>I * D / N\<bar> \<le> A" by simp
  have "\<bar>I * ts\<bar> \<le> A + (2 * a + b)" using b3 b4 by (rule abs_bound_add)
  also have "\<dots> \<le> A + 3 * a" using b a by linarith
  finally have b5: "\<bar>I * ts\<bar> \<le> A + 3 * a" .
  have "\<bar>I * ts\<bar> * u \<le> (A + 3 * a) * u"
    using b5 u by (intro mult_right_mono) simp_all
  then have "\<bar>I * ts\<bar> * u \<le> a + 3 * b" by (simp only: scale)
  with h3 have e3: "\<bar>m - I * ts\<bar> \<le> a + 3 * b" by (rule order_trans)
  have "\<bar>m - I * D / N\<bar> \<le> (a + 3 * b) + (2 * a + b)"
    using e3 b3 by (rule abs_diff_triangle)
  also have "\<dots> \<le> 4 * a" using b a by linarith
  finally have b6: "\<bar>m - I * D / N\<bar> \<le> 4 * a" .
  have b7: "\<bar>m\<bar> \<le> A + 4 * a" using b6 b4 by (rule abs_bound_add)
  have "\<bar>S + m\<bar> \<le> \<bar>S\<bar> + \<bar>m\<bar>" by (rule abs_triangle_ineq)
  also have "\<dots> \<le> \<bar>S\<bar> + (A + 4 * a)" using b7 by (rule add_left_mono)
  finally have "\<bar>S + m\<bar> * u \<le> (\<bar>S\<bar> + (A + 4 * a)) * u"
    using u by (intro mult_right_mono) simp_all
  also have "\<dots> = s + (A + 4 * a) * u" by (simp add: s_def algebra_simps)
  also have "\<dots> = s + (a + 4 * b)" by (simp only: scale)
  finally have "\<bar>S + m\<bar> * u \<le> s + (a + 4 * b)" .
  with h4 have e4: "\<bar>c - (S + m)\<bar> \<le> s + (a + 4 * b)" by (rule order_trans)
  have "(S + m) - (S + I * D / N) = m - I * D / N" by simp
  with b6 have "\<bar>(S + m) - (S + I * D / N)\<bar> \<le> 4 * a" by (simp only:)
  with e4 have "\<bar>c - (S + I * D / N)\<bar> \<le> (s + (a + 4 * b)) + 4 * a"
    by (rule abs_diff_triangle)
  also have "\<dots> \<le> 8 * s + 8 * a" using s a b by linarith
  also have "\<dots> = (\<bar>S\<bar> + \<bar>D\<bar>) * (8 * u)"
    by (simp add: s_def a_def A_def algebra_simps)
  finally show ?thesis .
qed

lemma frameTime_error:
  assumes "i \<le> n" and "0 < n"
  shows "\<bar>frameTime S (round_double (round_double D / of_nat n)) i - (S + of_nat i * D / of_nat n)\<bar>
           \<le> (\<bar>S\<bar> + \<bar>D\<bar>) / 2 ^ 50"
proof -
  let ?u = "1 / 2 ^ 53 :: rat"
  let ?d = "round_double D"
  let ?ts = "round_double (?d / of_nat n)"
  let ?m = "round_double (of_nat i * ?ts)"
  let ?c = "round_double (S + ?m)"
  have "\<bar>?c - (S + of_nat i * D / of_nat n)\<bar> \<le> (\<bar>S\<bar> + \<bar>D\<bar>) * (8 * ?u)"
  proof (rule grid_error [where d = ?d and ts = ?ts and m = ?m])
    show "\<bar>?d - D\<bar> \<le> \<bar>D\<bar> * ?u" using round_double_error [of D] by simp
    show "\<bar>?ts - ?d / of_nat n\<bar> \<le> \<bar>?d / of_nat n\<bar> * ?u"
      using round_double_error [of "?d / of_nat n"] by simp
    show "\<bar>?m - of_nat i * ?ts\<bar> \<le> \<bar>of_nat i * ?ts\<bar> * ?u"
      using round_double_error [of "of_nat i * ?ts"] by simp
    show "\<bar>?c - (S + ?m)\<bar> \<le> \<bar>S + ?m\<bar> * ?u"
      using round_double_error [of "S + ?m"] by simp
  qed (use assms in simp_all)
  then show ?thesis by (simp add: frameTime_def)
qed

lemma trunc_error: "\<bar>of_int (trunc t) - t\<bar> < 1"
  unfolding trunc_def by (cases "0 \<le> t") (simp_all, linarith+)

section \<open>The replay timeline: progress\<close>

lemma baseline_of_update:
  "baseline_of (AList.update k v states) n = (if n = k then DriverState.baseline_progress v else baseline_of states n)"
  by (simp add: baseline_of_def update_conv')

lemma applyCompletion_baseline:
  "baseline_of (applyCompletion laps t c states) n = baseline_of states n"
  by (auto simp: applyCompletion_def baseline_of_update Let_def split: option.splits)
     (simp_all add: baseline_of_def)

lemma fold_applyCompletion_baseline:
  "baseline_of (fold (applyCompletion laps t) cs states) n = baseline_of states n"
  by (induction cs arbitrary: states) (simp_all add: applyCompletion_baseline)

lemma chartPositions_Some:
  assumes "map_of states (Driver.driver_number d) = Some s"
  shows "chartPositions laps maxLap t g (d # ds) states =
     (let s' = s\<lparr>DriverState.baseline_progress :=
                 max (DriverState.baseline_progress s) (driverProgress maxLap g s)\<rparr>;
          r = chartPositions laps maxLap t g ds (AList.update (Driver.driver_number d) s' states)
      in (chartEntry laps t d s' # fst r, snd r))"
  using assms by (simp add: Let_def withBaseline_def split: prod.splits)

lemma chartPositions_None:
  assumes "map_of states (Driver.driver_number d) = None"
  shows "chartPositions laps maxLap t g (d # ds) states = chartPositions laps maxLap t g ds states"
  using assms by simp

declare chartPositions.simps(2) [simp del]

lemma chartPositions_baseline_mono:
  "baseline_of states n \<le> baseline_of (snd (chartPositions laps maxLap t g ds states)) n"
proof (induction ds arbitrary: states)
  case Nil
  show ?case by simp
next
  case (Cons d ds)
  show ?case
  proof (cases "map_of states (Driver.driver_number d)")
    case None
    then show ?thesis using Cons.IH [of states] by (simp add: chartPositions_None)
  next
    case (Some s)
    let ?s' = "s\<lparr>DriverState.baseline_progress :=
                 max (DriverState.baseline_progress s) (driverProgress maxLap g s)\<rparr>"
    let ?st' = "AList.update (Driver.driver_number d) ?s' states"
    have "baseline_of states n \<le> baseline_of ?st' n"
      using Some by (simp add: baseline_of_update) (simp add: baseline_of_def)
    also have "\<dots> \<le> baseline_of (snd (chartPositions laps maxLap t g ds ?st')) n"
      by (rule Cons.IH)
    finally show ?thesis
      by (simp add: chartPositions_Some [OF Some] Let_def)
  qed
qed

lemma chartEntry_progress:
  "ChartPosition.progress (chartEntry laps t d s) = max (DriverState.baseline_progress s) (1 / 100)"
  and chartEntry_driver_number:
  "ChartPosition.driver_number (chartEntry laps t d s) = Driver.driver_number d"
  and chartEntry_position:
  "ChartPosition.position (chartEntry laps t d s) = DriverState.position s"
  by (simp_all add: chartEntry_def Let_def)

lemma chartPositions_progress_bounds:
  assumes "e \<in> set (fst (chartPositions laps maxLap t g ds states))"
  shows "max (baseline_of states (ChartPosition.driver_number e)) (1 / 100) \<le> ChartPosition.progress e
       \<and> ChartPosition.progress e \<le>
           max (baseline_of (snd (chartPositions laps maxLap t g ds states)) (ChartPosition.driver_number e)) (1 / 100)"
  using assms
proof (induction ds arbitrary: states)
  case Nil
  then show ?case by simp
next
  case (Cons d ds)
  show ?case
  proof (cases "map_of states (Driver.driver_number d)")
    case None
    then show ?thesis using Cons.IH [of states] Cons.prems by (simp add: chartPositions_None)
  next
    case (Some s)
    let ?s' = "s\<lparr>DriverState.baseline_progress :=
                 max (DriverState.baseline_progress s) (driverProgress maxLap g s)\<rparr>"
    let ?st' = "AList.update (Driver.driver_number d) ?s' states"
    let ?r = "chartPositions laps maxLap t g ds ?st'"
    have res: "chartPositions laps maxLap t g (d # ds) states
                 = (chartEntry laps t d ?s' # fst ?r, snd ?r)"
      by (simp add: chartPositions_Some [OF Some] Let_def)
    have step: "baseline_of states n \<le> baseline_of ?st' n" for n
      using Some by (simp add: baseline_of_update) (simp add: baseline_of_def)
    from Cons.prems res
    consider (head) "e = chartEntry laps t d ?s'" | (tail) "e \<in> set (fst ?r)"
      by auto
    then show ?thesis
    proof cases
      case head
      have lo: "baseline_of states (Driver.driver_number d) \<le> DriverState.baseline_progress ?s'"
        using Some by (simp add: baseline_of_def)
      have "DriverState.baseline_progress ?s' = baseline_of ?st' (Driver.driver_number d)"
        by (simp add: baseline_of_update)
      also have "\<dots> \<le> baseline_of (snd ?r) (Driver.driver_number d)"
        by (rule chartPositions_baseline_mono)
      finally have hi: "DriverState.baseline_progress ?s' \<le> baseline_of (snd ?r) (Driver.driver_number d)" .
      show ?thesis
        unfolding res head chartEntry_progress chartEntry_driver_number snd_conv
        using lo hi by linarith
    next
      case tail
      from Cons.IH [OF tail] step [of "ChartPosition.driver_number e"]
      show ?thesis unfolding res snd_conv by linarith
    qed
  qed
qed


lemma frames_Cons:
  "frames laps rc maxLap cs fin startTime timeStep perFrame (i # rest) states =
     (let t = frameTime startTime timeStep i;
          g = of_nat i * perFrame;
          r = chartPositions laps maxLap t g fin (fold (applyCompletion laps t) cs states)
      in \<lparr> PositionChartData.timestamp = trunc t,
            PositionChartData.lapNumber = fold max (map (DriverState.lap_number \<circ> snd) (snd r)) 1,
            PositionChartData.totalLaps = maxLap,
            PositionChartData.positions = sort_key ChartPosition.position (fst r),
            PositionChartData.flags = currentFlags rc t \<rparr>
         # frames laps rc maxLap cs fin startTime timeStep perFrame rest (snd r))"
  by (simp add: Let_def frameAt_def split: prod.splits)

declare frames.simps(2) [simp del]

lemma length_frames:
  "length (frames laps rc maxLap cs fin startTime timeStep perFrame is states) = length is"
  by (induction "is" arbitrary: states) (simp_all add: frames_Cons Let_def)

lemma frames_first_lower:
  assumes "e \<in> set (PositionChartData.positions
                     (hd (frames laps rc maxLap cs fin startTime timeStep perFrame (i # rest) states)))"
  shows "max (baseline_of states (ChartPosition.driver_number e)) (1 / 100) \<le> ChartPosition.progress e"
proof -
  let ?t = "frameTime startTime timeStep i"
  let ?s1 = "fold (applyCompletion laps ?t) cs states"
  from assms have "e \<in> set (fst (chartPositions laps maxLap ?t (of_nat i * perFrame) fin ?s1))"
    by (simp add: frames_Cons Let_def)
  from chartPositions_progress_bounds [OF this]
  have "max (baseline_of ?s1 (ChartPosition.driver_number e)) (1 / 100) \<le> ChartPosition.progress e"
    by simp
  then show ?thesis by (simp add: fold_applyCompletion_baseline)
qed

lemma frames_progress_mono:
  assumes "Suc k < length (frames laps rc maxLap cs fin startTime timeStep perFrame is states)"
    and "e \<in> set (PositionChartData.positions
                    (frames laps rc maxLap cs fin startTime timeStep perFrame is states ! k))"
    and "e' \<in> set (PositionChartData.positions
                    (frames laps rc maxLap cs fin startTime timeStep perFrame is states ! Suc k))"
    and "ChartPosition.driver_number e = ChartPosition.driver_number e'"
  shows "ChartPosition.progress e \<le> ChartPosition.progress e'"
  using assms
proof (induction "is" arbitrary: states k)
  case Nil
  then show ?case by simp
next
  case (Cons i rest)
  let ?t = "frameTime startTime timeStep i"
  let ?r = "chartPositions laps maxLap ?t (of_nat i * perFrame) fin
              (fold (applyCompletion laps ?t) cs states)"
  let ?tail = "frames laps rc maxLap cs fin startTime timeStep perFrame rest (snd ?r)"
  show ?case
  proof (cases k)
    case 0
    from Cons.prems(1) have "rest \<noteq> []"
      by (auto simp: length_frames)
    then obtain j js where rest: "rest = j # js" by (cases rest) auto
    have tail_ne: "?tail \<noteq> []"
      using length_frames [of laps rc maxLap cs fin startTime timeStep perFrame rest "snd ?r"] rest
      by auto
    from Cons.prems(2) 0 have "e \<in> set (fst ?r)"
      by (simp add: frames_Cons Let_def)
    from chartPositions_progress_bounds [OF this]
    have up: "ChartPosition.progress e \<le> max (baseline_of (snd ?r) (ChartPosition.driver_number e)) (1 / 100)"
      by simp
    from Cons.prems(3) 0 have "e' \<in> set (PositionChartData.positions (?tail ! 0))"
      by (simp add: frames_Cons Let_def)
    with tail_ne have "e' \<in> set (PositionChartData.positions (hd ?tail))"
      by (simp add: hd_conv_nth)
    from frames_first_lower [OF this [unfolded rest]]
    have "max (baseline_of (snd ?r) (ChartPosition.driver_number e')) (1 / 100) \<le> ChartPosition.progress e'" .
    then have lo: "max (baseline_of (snd ?r) (ChartPosition.driver_number e)) (1 / 100) \<le> ChartPosition.progress e'"
      unfolding Cons.prems(4) .
    from up lo show ?thesis by (rule order_trans)
  next
    case (Suc k')
    from Cons.prems(1) Suc have 1: "Suc k' < length ?tail"
      by (simp add: frames_Cons Let_def)
    from Cons.prems(2) Suc have 2: "e \<in> set (PositionChartData.positions (?tail ! k'))"
      by (simp add: frames_Cons Let_def)
    from Cons.prems(3) Suc have 3: "e' \<in> set (PositionChartData.positions (?tail ! Suc k'))"
      by (simp add: frames_Cons Let_def)
    from Cons.IH [OF 1 2 3 Cons.prems(4)] show ?thesis .
  qed
qed

lemma frames_progress_floor:
  assumes "f \<in> set (frames laps rc maxLap cs fin startTime timeStep perFrame is states)"
    and "e \<in> set (PositionChartData.positions f)"
  shows "1 / 100 \<le> ChartPosition.progress e"
  using assms
proof (induction "is" arbitrary: states)
  case Nil
  then show ?case by simp
next
  case (Cons i rest)
  let ?t = "frameTime startTime timeStep i"
  let ?r = "chartPositions laps maxLap ?t (of_nat i * perFrame) fin
              (fold (applyCompletion laps ?t) cs states)"
  from Cons.prems(1)
  consider (head) "PositionChartData.positions f = sort_key ChartPosition.position (fst ?r)"
    | (tail) "f \<in> set (frames laps rc maxLap cs fin startTime timeStep perFrame rest (snd ?r))"
    by (auto simp: frames_Cons Let_def)
  then show ?case
  proof cases
    case head
    with Cons.prems(2) have "e \<in> set (fst ?r)" by simp
    from chartPositions_progress_bounds [OF this] show ?thesis by simp
  next
    case tail
    from Cons.IH [OF tail Cons.prems(2)] show ?thesis .
  qed
qed

section \<open>The replay timeline: who is in a frame, and when\<close>

lemma has_states_update:
  "has_states fin states \<Longrightarrow> has_states fin (AList.update k v states)"
  by (simp add: has_states_def update_conv')

lemma has_states_applyCompletion:
  "has_states fin states \<Longrightarrow> has_states fin (applyCompletion laps t c states)"
  by (simp add: applyCompletion_def Let_def has_states_update split: option.splits)

lemma has_states_fold_applyCompletion:
  "has_states fin states \<Longrightarrow> has_states fin (fold (applyCompletion laps t) cs states)"
  by (induction cs arbitrary: states) (simp_all add: has_states_applyCompletion)

lemma has_states_chartPositions:
  "has_states fin states \<Longrightarrow> has_states fin (snd (chartPositions laps maxLap t g ds states))"
proof (induction ds arbitrary: states)
  case Nil
  then show ?case by simp
next
  case (Cons d ds)
  show ?case
  proof (cases "map_of states (Driver.driver_number d)")
    case None
    with Cons show ?thesis by (simp add: chartPositions_None)
  next
    case (Some s)
    show ?thesis
      by (simp add: chartPositions_Some [OF Some] Let_def Cons.IH has_states_update Cons.prems)
  qed
qed

lemma fold_update_keys:
  assumes "k \<in> key ` set ds \<or> map_of states k \<noteq> None"
  shows "map_of (fold (\<lambda>d. AList.update (key d) (val d)) ds states) k \<noteq> None"
  using assms by (induction ds arbitrary: states) (auto simp: update_conv')

lemma has_states_initialStates: "has_states fin (initialStates q fin)"
  unfolding has_states_def initialStates_def
proof
  fix d assume "d \<in> set fin"
  then have "Driver.driver_number d \<in> Driver.driver_number ` set fin \<or>
             map_of [] (Driver.driver_number d) \<noteq> (None :: DriverState option)"
    by simp
  then show "map_of (fold (\<lambda>driver. AList.update (Driver.driver_number driver)
               \<lparr> DriverState.position =
                    or_else (q (Driver.driver_number driver)) (Driver.driver_number driver),
                  DriverState.lap_number = 0,
                  DriverState.cumulative_time = 0,
                  DriverState.pit_stops = 0,
                  DriverState.is_in_pit = False,
                  DriverState.baseline_progress = 0 \<rparr>) fin []) (Driver.driver_number d) \<noteq> None"
    by (rule fold_update_keys)
qed

lemma chartPositions_driver_numbers:
  assumes "\<forall>d \<in> set ds. map_of states (Driver.driver_number d) \<noteq> None"
  shows "map ChartPosition.driver_number (fst (chartPositions laps maxLap t g ds states))
           = map Driver.driver_number ds"
  using assms
proof (induction ds arbitrary: states)
  case Nil
  then show ?case by simp
next
  case (Cons d ds)
  from Cons.prems obtain s where s: "map_of states (Driver.driver_number d) = Some s"
    by auto
  let ?s' = "s\<lparr>DriverState.baseline_progress :=
               max (DriverState.baseline_progress s) (driverProgress maxLap g s)\<rparr>"
  have "\<forall>d' \<in> set ds. map_of (AList.update (Driver.driver_number d) ?s' states)
                          (Driver.driver_number d') \<noteq> None"
    using Cons.prems by (simp add: update_conv')
  from Cons.IH [OF this] show ?case
    by (simp add: chartPositions_Some [OF s] Let_def chartEntry_driver_number)
qed

lemma frames_positions:
  assumes "f \<in> set (frames laps rc maxLap cs fin startTime timeStep perFrame is states)"
    and "has_states fin states"
  shows "\<exists>entries. PositionChartData.positions f = sort_key ChartPosition.position entries
                   \<and> map ChartPosition.driver_number entries = map Driver.driver_number fin"
  using assms
proof (induction "is" arbitrary: states)
  case Nil
  then show ?case by simp
next
  case (Cons i rest)
  let ?t = "frameTime startTime timeStep i"
  let ?s1 = "fold (applyCompletion laps ?t) cs states"
  let ?r = "chartPositions laps maxLap ?t (of_nat i * perFrame) fin ?s1"
  have s1: "has_states fin ?s1"
    using Cons.prems(2) by (rule has_states_fold_applyCompletion)
  from Cons.prems(1)
  consider (head) "PositionChartData.positions f = sort_key ChartPosition.position (fst ?r)"
    | (tail) "f \<in> set (frames laps rc maxLap cs fin startTime timeStep perFrame rest (snd ?r))"
    by (auto simp: frames_Cons Let_def)
  then show ?case
  proof cases
    case head
    have "map ChartPosition.driver_number (fst ?r) = map Driver.driver_number fin"
      using s1 by (intro chartPositions_driver_numbers) (simp add: has_states_def)
    with head show ?thesis by blast
  next
    case tail
    have "has_states fin (snd ?r)"
      using s1 by (rule has_states_chartPositions)
    from Cons.IH [OF tail this] show ?thesis .
  qed
qed

lemma processRaceData_positions:
  assumes "f \<in> set (processRaceData ds ps ls q rc now0 now1)"
  shows "\<exists>entries. PositionChartData.positions f = sort_key ChartPosition.position entries
                   \<and> map ChartPosition.driver_number entries
                       = map Driver.driver_number (finishingDrivers ds ls)"
  using assms unfolding processRaceData_def Let_def
  by (rule frames_positions) (rule has_states_initialStates)

lemma length_processRaceData:
  "length (processRaceData ds ps ls q rc now0 now1) = nat (timeIntervals_of ls) + 1"
  by (simp add: processRaceData_def Let_def length_frames)

lemma count_finishingDrivers:
  "length (filter (\<lambda>d. Driver.driver_number d = n) (finishingDrivers ds ls))
     = (if 3 < length (filter (\<lambda>lap. Lap.driver_number lap = n) ls)
        then length (filter (\<lambda>d. Driver.driver_number d = n) ds) else 0)"
proof -
  have "filter (\<lambda>d. Driver.driver_number d = n) (finishingDrivers ds ls)
          = filter (\<lambda>d. Driver.driver_number d = n
                        \<and> 3 < length (filter (\<lambda>lap. Lap.driver_number lap = n) ls)) ds"
    unfolding finishingDrivers_def filter_filter
    by (rule filter_cong) auto
  then show ?thesis by simp
qed

lemma count_in_frame:
  assumes "f \<in> set (processRaceData ds ps ls q rc now0 now1)"
  shows "length (filter (\<lambda>e. ChartPosition.driver_number e = n) (PositionChartData.positions f))
           = (if 3 < length (filter (\<lambda>lap. Lap.driver_number lap = n) ls)
              then length (filter (\<lambda>d. Driver.driver_number d = n) ds) else 0)"
proof -
  from processRaceData_positions [OF assms] obtain entries where
    e: "PositionChartData.positions f = sort_key ChartPosition.position entries"
       "map ChartPosition.driver_number entries = map Driver.driver_number (finishingDrivers ds ls)"
    by blast
  have "length (filter (\<lambda>e. ChartPosition.driver_number e = n) (PositionChartData.positions f))
          = length (filter (\<lambda>e. ChartPosition.driver_number e = n) entries)"
    unfolding e(1) by (simp add: filter_sort)
  also have "\<dots> = length (filter (\<lambda>x. x = n) (map ChartPosition.driver_number entries))"
    by (simp add: filter_map comp_def)
  also have "\<dots> = length (filter (\<lambda>d. Driver.driver_number d = n) (finishingDrivers ds ls))"
    unfolding e(2) by (simp add: filter_map comp_def)
  finally show ?thesis by (simp only: count_finishingDrivers)
qed

lemma maxLap_of_Max: "maxLap_of ls = Max (insert 1 (Lap.lap_number ` set ls))"
  unfolding maxLap_of_def using Max.set_eq_fold [of 1 "map Lap.lap_number ls"] by simp

lemma maxLap_of_pos: "1 \<le> maxLap_of ls"
  unfolding maxLap_of_Max by simp

lemma frames_timestamp:
  assumes "k < length is"
  shows "PositionChartData.timestamp
           (frames laps rc maxLap cs fin startTime timeStep perFrame is states ! k)
         = trunc (frameTime startTime timeStep (is ! k))"
  using assms
proof (induction "is" arbitrary: states k)
  case Nil
  then show ?case by simp
next
  case (Cons i rest)
  show ?case
  proof (cases k)
    case 0
    then show ?thesis by (simp add: frames_Cons Let_def)
  next
    case (Suc k')
    with Cons.prems have "k' < length rest" by simp
    from Cons.IH [OF this] Suc show ?thesis by (simp add: frames_Cons Let_def)
  qed
qed

lemma trunc_of_int: "trunc (of_int z) = z"
  by (simp add: trunc_def)

lemma processRaceData_timestamp:
  assumes "i \<le> nat (timeIntervals_of ls)"
  shows "PositionChartData.timestamp (processRaceData ds ps ls q rc now0 now1 ! i)
         = trunc (frameTime (of_int (startTime_of (allLapCompletions ds ps ls q) now0))
                    (round_double
                       (round_double (of_int (endTime_of (allLapCompletions ds ps ls q) now1)
                                      - of_int (startTime_of (allLapCompletions ds ps ls q) now0))
                        / of_int (timeIntervals_of ls))) i)"
proof -
  have "i < length [0 ..< Suc (nat (timeIntervals_of ls))]" using assms by simp
  moreover have "[0 ..< Suc (nat (timeIntervals_of ls))] ! i = i"
    using assms by (metis add_0 less_Suc_eq_le nth_upt)
  ultimately show ?thesis
    unfolding processRaceData_def Let_def
    using frames_timestamp [of i "[0 ..< Suc (nat (timeIntervals_of ls))]"] by simp
qed

lemma frameTime_first:
  assumes "\<bar>S\<bar> < 2 ^ 53"
  shows "frameTime (of_int S) timeStep 0 = of_int S"
  using round_double_of_int [OF assms] by (simp add: frameTime_def round_double_def)

section \<open>The replay timeline: where the positions come from\<close>

lemma or_else_case:
  "or_else (q n) n = (case q n of None \<Rightarrow> n | Some g \<Rightarrow> if g \<noteq> 0 then g else n)"
  by (simp add: or_else_def split: option.splits)

lemma lapPosition_source: "from_sources ps q (Driver.driver_number d) (lapPosition ps q d lap)"
proof (cases "find (\<lambda>p. Position.driver_number p = Driver.driver_number d
                         \<and> \<bar>Position.date p - Lap.date_start lap\<bar> < 60000) ps")
  case None
  then show ?thesis
    by (simp add: lapPosition_def from_sources_def or_else_case [symmetric]) (simp add: or_else_def)
next
  case (Some p)
  then have "p \<in> set ps" "Position.driver_number p = Driver.driver_number d"
    by (auto simp: find_Some_iff)
  with Some show ?thesis
    by (auto simp: lapPosition_def from_sources_def or_else_def split: option.splits)
qed

lemma driverCompletions_source:
  assumes "c \<in> set (driverCompletions ps q d acc L)"
  shows "from_sources ps q (LapCompletion.driver_number c) (LapCompletion.position c)"
  using assms
  by (induction L arbitrary: acc) (auto simp: Let_def lapPosition_source)

lemma allLapCompletions_source:
  assumes "c \<in> set (allLapCompletions ds ps ls q)"
  shows "from_sources ps q (LapCompletion.driver_number c) (LapCompletion.position c)"
  using assms by (auto simp: allLapCompletions_def driverCompletions_source)

lemma map_of_fold_update:
  assumes "map_of (fold (\<lambda>d. AList.update (key d) (val d)) ds init) n = Some st"
  shows "(\<exists>d \<in> set ds. key d = n \<and> st = val d) \<or> map_of init n = Some st"
  using assms
proof (induction ds arbitrary: init)
  case Nil
  then show ?case by simp
next
  case (Cons d ds)
  from Cons.IH [of "AList.update (key d) (val d) init"] Cons.prems
  show ?case by (auto simp: update_conv' split: if_splits)
qed

lemma sourced_initialStates: "sourced_states ps q (initialStates q fin)"
  unfolding sourced_states_def initialStates_def
proof (intro allI impI)
  fix n st
  assume "map_of (fold (\<lambda>driver. AList.update (Driver.driver_number driver)
               \<lparr> DriverState.position =
                    or_else (q (Driver.driver_number driver)) (Driver.driver_number driver),
                  DriverState.lap_number = 0,
                  DriverState.cumulative_time = 0,
                  DriverState.pit_stops = 0,
                  DriverState.is_in_pit = False,
                  DriverState.baseline_progress = 0 \<rparr>) fin []) n = Some st"
  from map_of_fold_update [OF this]
  have "DriverState.position st = or_else (q n) n" by auto
  then show "from_sources ps q n (DriverState.position st)"
    by (simp add: from_sources_def or_else_case)
qed

lemma sourced_update:
  assumes "sourced_states ps q states" and "from_sources ps q k (DriverState.position v)"
  shows "sourced_states ps q (AList.update k v states)"
  using assms by (simp add: sourced_states_def update_conv')

lemma sourced_applyCompletion:
  assumes "sourced_states ps q states"
    and "from_sources ps q (LapCompletion.driver_number c) (LapCompletion.position c)"
  shows "sourced_states ps q (applyCompletion laps t c states)"
  using assms
  by (auto simp: applyCompletion_def Let_def intro!: sourced_update split: option.splits)

lemma sourced_fold_applyCompletion:
  assumes "sourced_states ps q states"
    and "\<forall>c \<in> set cs. from_sources ps q (LapCompletion.driver_number c) (LapCompletion.position c)"
  shows "sourced_states ps q (fold (applyCompletion laps t) cs states)"
  using assms by (induction cs arbitrary: states) (simp_all add: sourced_applyCompletion)

lemma sourced_chartPositions:
  assumes "sourced_states ps q states"
  shows "sourced_states ps q (snd (chartPositions laps maxLap t g ds states))
       \<and> (\<forall>e \<in> set (fst (chartPositions laps maxLap t g ds states)).
             from_sources ps q (ChartPosition.driver_number e) (ChartPosition.position e))"
  using assms
proof (induction ds arbitrary: states)
  case Nil
  then show ?case by simp
next
  case (Cons d ds)
  show ?case
  proof (cases "map_of states (Driver.driver_number d)")
    case None
    with Cons show ?thesis by (simp add: chartPositions_None)
  next
    case (Some s)
    let ?s' = "s\<lparr>DriverState.baseline_progress :=
                 max (DriverState.baseline_progress s) (driverProgress maxLap g s)\<rparr>"
    from Cons.prems Some have src: "from_sources ps q (Driver.driver_number d) (DriverState.position s)"
      by (simp add: sourced_states_def)
    then have "sourced_states ps q (AList.update (Driver.driver_number d) ?s' states)"
      using Cons.prems by (intro sourced_update) simp_all
    from Cons.IH [OF this] src show ?thesis
      by (simp add: chartPositions_Some [OF Some] Let_def chartEntry_driver_number chartEntry_position)
  qed
qed

lemma frames_sources:
  assumes "f \<in> set (frames laps rc maxLap cs fin startTime timeStep perFrame is states)"
    and "sourced_states ps q states"
    and "\<forall>c \<in> set cs. from_sources ps q (LapCompletion.driver_number c) (LapCompletion.position c)"
    and "e \<in> set (PositionChartData.positions f)"
  shows "from_sources ps q (ChartPosition.driver_number e) (ChartPosition.position e)"
  using assms(1,2,4)
proof (induction "is" arbitrary: states)
  case Nil
  then show ?case by simp
next
  case (Cons i rest)
  let ?t = "frameTime startTime timeStep i"
  let ?s1 = "fold (applyCompletion laps ?t) cs states"
  let ?r = "chartPositions laps maxLap ?t (of_nat i * perFrame) fin ?s1"
  have s1: "sourced_states ps q ?s1"
    using Cons.prems(2) assms(3) by (rule sourced_fold_applyCompletion)
  note r = sourced_chartPositions [OF s1, of laps maxLap ?t "of_nat i * perFrame" fin]
  from Cons.prems(1)
  consider (head) "PositionChartData.positions f = sort_key ChartPosition.position (fst ?r)"
    | (tail) "f \<in> set (frames laps rc maxLap cs fin startTime timeStep perFrame rest (snd ?r))"
    by (auto simp: frames_Cons Let_def)
  then show ?case
  proof cases
    case head
    with Cons.prems(3) have "e \<in> set (fst ?r)" by simp
    with r show ?thesis by blast
  next
    case tail
    from r have "sourced_states ps q (snd ?r)" by blast
    from Cons.IH [OF tail this Cons.prems(3)] show ?thesis .
  qed
qed

lemma processRaceData_sources:
  assumes "f \<in> set (processRaceData ds ps ls q rc now0 now1)"
    and "e \<in> set (PositionChartData.positions f)"
  shows "from_sources ps q (ChartPosition.driver_number e) (ChartPosition.position e)"
proof -
  have cs: "\<forall>c \<in> set (allLapCompletions ds ps ls q).
          from_sources ps q (LapCompletion.driver_number c) (LapCompletion.position c)"
    by (simp add: allLapCompletions_source)
  from assms(1) show ?thesis
    unfolding processRaceData_def Let_def
    by (rule frames_sources [OF _ sourced_initialStates cs assms(2)])
qed

section \<open>Interpolation between frames\<close>

lemma frame_driver_numbers:
  assumes "f \<in> set (processRaceData ds ps ls q rc now0 now1)"
  shows "set (map ChartPosition.driver_number (PositionChartData.positions f))
           = set (map Driver.driver_number (finishingDrivers ds ls))"
proof -
  from processRaceData_positions [OF assms] obtain entries where
    e: "PositionChartData.positions f = sort_key ChartPosition.position entries"
       "map ChartPosition.driver_number entries = map Driver.driver_number (finishingDrivers ds ls)"
    by blast
  have "set (map ChartPosition.driver_number (PositionChartData.positions f))
          = set (map ChartPosition.driver_number entries)"
    unfolding e(1) by simp
  then show ?thesis unfolding e(2) .
qed

lemma interpolate_unchanged:
  "1 \<le> r \<Longrightarrow> interpolateDriverPositions prev C r = PositionChartData.positions C"
  "interpolateDriverPositions None C r = PositionChartData.positions C"
  by (simp_all add: interpolateDriverPositions_def split: option.splits)

lemma interpolate_zero_nth:
  assumes "k < length (PositionChartData.positions C)"
    and "find (\<lambda>p. ChartPosition.driver_number p
                     = ChartPosition.driver_number (PositionChartData.positions C ! k))
           (PositionChartData.positions P) = Some p"
  shows "interpolateDriverPositions (Some P) C 0 ! k
         = (PositionChartData.positions C ! k)
             \<lparr> ChartPosition.progress := ChartPosition.progress p,
               ChartPosition.interpolated_position := Some (of_int (ChartPosition.position p)),
               ChartPosition.position_change :=
                 Some (ChartPosition.position (PositionChartData.positions C ! k)
                       - ChartPosition.position p) \<rparr>"
  using assms by (simp add: interpolateDriverPositions_def)

lemma interpolate_lap_numbers:
  "map ChartPosition.current_lap_number (interpolateDriverPositions prev C r)
     = map ChartPosition.current_lap_number (PositionChartData.positions C)"
  by (auto simp: interpolateDriverPositions_def split: option.splits)

section \<open>The position of a lap completion\<close>






section \<open>The small race, evaluated\<close>

lemma frames_code [code]:
  "frames laps rc maxLap completions finishing startTime timeStep perFrame [] states = []"
  "frames laps rc maxLap completions finishing startTime timeStep perFrame (i # rest) states =
     frames_at laps rc maxLap completions finishing startTime timeStep perFrame
       (frameTime startTime timeStep i) i rest states"
  by (simp_all add: frames.simps(2) frames_at_def frames_cont_def split: prod.splits)

lemma nth_of_map_eq:
  assumes "map f xs = ys" and "k < length ys"
  shows "f (xs ! k) = ys ! k"
  using assms by (metis length_map nth_map)

lemma race_frames_summary:
  "map frame_summary race_frames =
     [(0, [(1, 1, 36 / 125, 1), (16, 3, 1 / 100, 0)]),
      (34125, [(1, 1, 36 / 125, 1), (16, 3, 71 / 250, 1)]),
      (68250, [(1, 1, 36 / 125, 1), (16, 3, 71 / 250, 1)]),
      (102375, [(1, 1, 269 / 500, 2), (16, 3, 267 / 500, 2)]),
      (136500, [(1, 1, 269 / 500, 2), (16, 3, 267 / 500, 2)]),
      (170625, [(1, 1, 269 / 500, 2), (16, 3, 267 / 500, 2)]),
      (204750, [(1, 1, 197 / 250, 3), (16, 3, 98 / 125, 3)]),
      (238875, [(1, 1, 197 / 250, 3), (16, 3, 98 / 125, 3)]),
      (273000, [(1, 1, 1, 4), (16, 3, 1, 4)])]"
  by code_simp

lemma length_race_frames: "length race_frames = 9"
  using arg_cong [OF race_frames_summary, of length] by simp

lemma race_frame_0: "frame_summary (race_frames ! 0) = (0, [(1, 1, 36 / 125, 1), (16, 3, 1 / 100, 0)])"
  using nth_of_map_eq [OF race_frames_summary, of 0] by simp

lemma race_frame_2: "frame_summary (race_frames ! 2) = (68250, [(1, 1, 36 / 125, 1), (16, 3, 71 / 250, 1)])"
  using nth_of_map_eq [OF race_frames_summary, of 2] by simp

lemma race_frame_3: "frame_summary (race_frames ! 3) = (102375, [(1, 1, 269 / 500, 2), (16, 3, 267 / 500, 2)])"
  using nth_of_map_eq [OF race_frames_summary, of 3] by simp

lemma race_frame_8: "frame_summary (race_frames ! 8) = (273000, [(1, 1, 1, 4), (16, 3, 1, 4)])"
  using nth_of_map_eq [OF race_frames_summary, of 8] by simp

lemma summary_entries:
  assumes "frame_summary f = (t, [a, b])"
  shows "length (PositionChartData.positions f) = 2"
    and "PositionChartData.timestamp f = t"
    and "ChartPosition.driver_number (PositionChartData.positions f ! 0) = fst a"
    and "ChartPosition.position (PositionChartData.positions f ! 0) = fst (snd a)"
    and "ChartPosition.progress (PositionChartData.positions f ! 0) = fst (snd (snd a))"
    and "ChartPosition.current_lap_number (PositionChartData.positions f ! 0) = snd (snd (snd a))"
    and "ChartPosition.driver_number (PositionChartData.positions f ! 1) = fst b"
    and "ChartPosition.position (PositionChartData.positions f ! 1) = fst (snd b)"
    and "ChartPosition.progress (PositionChartData.positions f ! 1) = fst (snd (snd b))"
    and "ChartPosition.current_lap_number (PositionChartData.positions f ! 1) = snd (snd (snd b))"
  using assms by (auto simp: frame_summary_def)

lemma running_frames_summary:
  "frame_summary (running_frames ! 0) = (0, [(23, 23, 61 / 250, 1)])"
  by code_simp

text \<open>
  In the early session the last lap completion is at 61 ms and there are 14 intervals. The
  time of the last frame is computed as 60.99999999999999: the frame is stamped 60, and the
  completion at 61, of lap 7, is never applied.
\<close>

lemma early_frames_last:
  "map LapCompletion.timestamp (allLapCompletions [mkDriver 1 ''VER'' ''Red Bull''] [] early_laps Map.empty)
     = [0, 20, 40, 61]
   \<and> length early_frames = 15
   \<and> frame_summary (early_frames ! 14) = (60, [(1, 1, 4 / 5, 3)])"
  by code_simp

text \<open>
  With the other samples the last frame of the small race shows both drivers in first place:
  driver 16 by the sample at 250 s, driver 1 by the qualifying grid.
\<close>

lemma lead_frames_last:
  "frame_summary (lead_frames ! 8) = (273000, [(1, 1, 1, 4), (16, 1, 1, 4)])"
  by code_simp

section \<open>The replay timeline: results\<close>

text \<open>
  C1 (as amended). In every frame that \<^verbatim>\<open>processRaceData\<close> produces the entries are listed by
  ascending position (equal positions allowed), and their driver numbers are the driver numbers
  of the eligible driver records, each as often as it occurs there: one entry for each eligible
  record, N in all. The position of an entry is not a rank among them: it is the qualifying-grid
  position of the driver (the driver number, when the grid has no entry or the entry 0), or the
  position of one of the driver's position samples. So the positions of a frame need not be
  1..N: a value can be missing (the counterexample below) and a value can occur twice (lemma
  \<open>lead_frames_last\<close>).
\<close>

theorem frame_positions_sorted:
  assumes "f \<in> set (processRaceData ds ps ls q rc now0 now1)"
  shows "sorted (map ChartPosition.position (PositionChartData.positions f))
       \<and> mset (map ChartPosition.driver_number (PositionChartData.positions f))
           = mset (map Driver.driver_number (finishingDrivers ds ls))
       \<and> length (PositionChartData.positions f) = length (finishingDrivers ds ls)
       \<and> (\<forall>e \<in> set (PositionChartData.positions f).
             ChartPosition.position e
               = (case q (ChartPosition.driver_number e) of
                    None \<Rightarrow> ChartPosition.driver_number e
                  | Some g \<Rightarrow> if g \<noteq> 0 then g else ChartPosition.driver_number e)
           \<or> (\<exists>p \<in> set ps. Position.driver_number p = ChartPosition.driver_number e
                            \<and> Position.position p = ChartPosition.position e))"
proof -
  from processRaceData_positions [OF assms] obtain entries where
    e: "PositionChartData.positions f = sort_key ChartPosition.position entries"
       "map ChartPosition.driver_number entries = map Driver.driver_number (finishingDrivers ds ls)"
    by blast
  from e(2) have len: "length entries = length (finishingDrivers ds ls)"
    by (metis length_map)
  have "mset (map ChartPosition.driver_number (PositionChartData.positions f))
          = mset (map ChartPosition.driver_number entries)"
    unfolding e(1) by simp
  then have numbers: "mset (map ChartPosition.driver_number (PositionChartData.positions f))
           = mset (map Driver.driver_number (finishingDrivers ds ls))"
    by (simp only: e(2))
  have "\<forall>e \<in> set (PositionChartData.positions f).
          from_sources ps q (ChartPosition.driver_number e) (ChartPosition.position e)"
    using processRaceData_sources [OF assms] by blast
  with e(1) len numbers show ?thesis
    unfolding from_sources_def by simp
qed

text \<open>
  In the small race the first frame shows two drivers, in positions 1 and 3: driver 44, who
  started second, is not eligible.
\<close>

theorem frame_positions_counterexample:
  "length (PositionChartData.positions (race_frames ! 0)) = 2
   \<and> set (map ChartPosition.position (PositionChartData.positions (race_frames ! 0))) \<noteq> {1, 2}"
proof -
  from race_frame_0 have "map ChartPosition.position (PositionChartData.positions (race_frames ! 0)) = [1, 3]"
    by (auto simp: frame_summary_def)
  then have "set (map ChartPosition.position (PositionChartData.positions (race_frames ! 0))) = {1, 3}"
    by (simp only: list.set)
  then show ?thesis using summary_entries(1) [OF race_frame_0] by (simp add: doubleton_eq_iff)
qed

theorem frame_positions_sorted_witness:
  "race_frames ! 0 \<in> set race_frames
   \<and> sorted (map ChartPosition.position (PositionChartData.positions (race_frames ! 0)))
   \<and> mset (map ChartPosition.driver_number (PositionChartData.positions (race_frames ! 0)))
        = mset [1, 16]
   \<and> length (PositionChartData.positions (race_frames ! 0)) = 2"
proof -
  have "0 < length race_frames" by (simp add: length_race_frames)
  then have h: "race_frames ! 0 \<in> set race_frames" by (rule nth_mem)
  have n: "map Driver.driver_number (finishingDrivers race_drivers race_laps) = [1, 16]" by code_simp
  have l: "length (finishingDrivers race_drivers race_laps) = 2"
    using arg_cong [OF n, of length] by simp
  from frame_positions_sorted [OF h [unfolded race_frames_def]] h n l
  show ?thesis by (simp add: race_frames_def)
qed

text \<open>
  C2. The progress stored for a driver never decreases from one frame to the next, and is at
  least 0.01.
\<close>

theorem progress_monotonic:
  assumes "Suc k < length (processRaceData ds ps ls q rc now0 now1)"
    and "e \<in> set (PositionChartData.positions (processRaceData ds ps ls q rc now0 now1 ! k))"
    and "e' \<in> set (PositionChartData.positions (processRaceData ds ps ls q rc now0 now1 ! Suc k))"
    and "ChartPosition.driver_number e = ChartPosition.driver_number e'"
  shows "ChartPosition.progress e \<le> ChartPosition.progress e' \<and> 1 / 100 \<le> ChartPosition.progress e
         \<and> 1 / 100 \<le> ChartPosition.progress e'"
proof -
  have "ChartPosition.progress e \<le> ChartPosition.progress e'"
    using assms unfolding processRaceData_def Let_def by (rule frames_progress_mono)
  moreover have "processRaceData ds ps ls q rc now0 now1 ! k \<in> set (processRaceData ds ps ls q rc now0 now1)"
    using assms(1) by simp
  then have "1 / 100 \<le> ChartPosition.progress e"
    using assms(2) unfolding processRaceData_def Let_def by (rule frames_progress_floor)
  ultimately show ?thesis by simp
qed

theorem progress_monotonic_witness:
  "Suc 2 < length race_frames
   \<and> PositionChartData.positions (race_frames ! 2) ! 1 \<in> set (PositionChartData.positions (race_frames ! 2))
   \<and> PositionChartData.positions (race_frames ! Suc 2) ! 1 \<in> set (PositionChartData.positions (race_frames ! Suc 2))
   \<and> ChartPosition.driver_number (PositionChartData.positions (race_frames ! 2) ! 1) = 16
   \<and> ChartPosition.driver_number (PositionChartData.positions (race_frames ! Suc 2) ! 1) = 16
   \<and> ChartPosition.progress (PositionChartData.positions (race_frames ! 2) ! 1)
       \<le> ChartPosition.progress (PositionChartData.positions (race_frames ! Suc 2) ! 1)"
proof -
  have h1: "Suc 2 < length race_frames" by (simp add: length_race_frames)
  have s3: "Suc 2 = 3" by simp
  have h2: "PositionChartData.positions (race_frames ! 2) ! 1 \<in> set (PositionChartData.positions (race_frames ! 2))"
    by (rule nth_mem) (simp add: summary_entries(1) [OF race_frame_2])
  have h3: "PositionChartData.positions (race_frames ! Suc 2) ! 1 \<in> set (PositionChartData.positions (race_frames ! Suc 2))"
    unfolding s3 by (rule nth_mem) (simp add: summary_entries(1) [OF race_frame_3])
  have d2: "ChartPosition.driver_number (PositionChartData.positions (race_frames ! 2) ! 1) = 16"
    using summary_entries(7) [OF race_frame_2] by simp
  have d3: "ChartPosition.driver_number (PositionChartData.positions (race_frames ! Suc 2) ! 1) = 16"
    unfolding s3 using summary_entries(7) [OF race_frame_3] by simp
  from progress_monotonic [OF h1 [unfolded race_frames_def] h2 [unfolded race_frames_def]
         h3 [unfolded race_frames_def]] d2 d3
  have "ChartPosition.progress (PositionChartData.positions (race_frames ! 2) ! 1)
       \<le> ChartPosition.progress (PositionChartData.positions (race_frames ! Suc 2) ! 1)"
    by (simp add: race_frames_def)
  with h1 h2 h3 d2 d3 show ?thesis by simp
qed

text \<open>
  C5 (as amended). \<^verbatim>\<open>processRaceData\<close> produces one frame more than
  \<open>n = min (2 \<times> totalLaps) 100\<close>, where \<open>totalLaps\<close> is the greatest lap number on record
  (at least 1). \<open>S\<close> and \<open>E\<close> are the first and the last timestamp of the merged lap completions;
  when there are none, \<open>S\<close> is the first clock reading and \<open>E\<close> is one second after the second
  reading. The time \<open>t\<close> of frame \<open>i\<close>, for \<open>i\<close> from 0 to \<open>n\<close>, is \<open>S + i \<times> ((E - S) / n)\<close> computed in double
  precision, and the timestamp of the frame is \<open>t\<close> cut to whole milliseconds. So the frames are
  evenly spaced up to rounding: \<open>t\<close> lies within \<open>(\<bar>S\<bar> + \<bar>E - S\<bar>) / 2\<^sup>5\<^sup>0\<close> of the grid point
  \<open>S + i \<times> (E - S) / n\<close>, and the timestamp within a millisecond more. The first frame is
  stamped \<open>S\<close>. The last frame is not always stamped \<open>E\<close> (lemma \<open>early_frames_last\<close>).
\<close>

theorem frame_time_grid:
  assumes "i \<le> nat (min (2 * Max (insert 1 (Lap.lap_number ` set ls))) 100)"
  shows "let cs = allLapCompletions ds ps ls q;
             n = min (2 * Max (insert 1 (Lap.lap_number ` set ls))) 100;
             S = (if cs = [] then now0 else LapCompletion.timestamp (hd cs));
             E = (if cs = [] then now1 + 1000 else LapCompletion.timestamp (last cs));
             F = processRaceData ds ps ls q rc now0 now1;
             t = round_double (of_int S + round_double (of_nat i *
                   round_double (round_double (of_int E - of_int S) / of_int n)));
             grid = of_int S + of_nat i * (of_int E - of_int S) / of_int n
         in length F = nat n + 1
          \<and> PositionChartData.timestamp (F ! i) = trunc t
          \<and> \<bar>t - grid\<bar> \<le> (\<bar>of_int S\<bar> + \<bar>of_int E - of_int S\<bar>) / 2 ^ 50
          \<and> \<bar>of_int (PositionChartData.timestamp (F ! i)) - grid\<bar>
                < 1 + (\<bar>of_int S\<bar> + \<bar>of_int E - of_int S\<bar>) / 2 ^ 50
          \<and> (\<bar>S\<bar> < 2 ^ 53 \<longrightarrow> PositionChartData.timestamp (F ! 0) = S)"
proof -
  let ?cs = "allLapCompletions ds ps ls q"
  let ?n = "timeIntervals_of ls"
  let ?S = "startTime_of ?cs now0"
  let ?E = "endTime_of ?cs now1"
  let ?ts = "round_double (round_double (of_int ?E - of_int ?S) / of_int ?n)"
  let ?t = "round_double (of_int ?S + round_double (of_nat i * ?ts))"
  let ?grid = "rat_of_int ?S + of_nat i * (of_int ?E - of_int ?S) / of_int ?n"
  let ?F = "processRaceData ds ps ls q rc now0 now1"
  have n: "?n = min (2 * Max (insert 1 (Lap.lap_number ` set ls))) 100"
    by (simp add: timeIntervals_of_def maxLap_of_Max mult.commute)
  have S: "?S = (if ?cs = [] then now0 else LapCompletion.timestamp (hd ?cs))"
    by (cases ?cs) (simp_all add: startTime_of_def)
  have E: "?E = (if ?cs = [] then now1 + 1000 else LapCompletion.timestamp (last ?cs))"
    by (simp add: endTime_of_def)
  have pos: "0 < ?n"
    using maxLap_of_pos [of ls] by (simp add: timeIntervals_of_def)
  have i: "i \<le> nat ?n" using assms n by simp
  have nn: "rat_of_int ?n = of_nat (nat ?n)" using pos by simp
  have stamp: "PositionChartData.timestamp (?F ! i) = trunc ?t"
    using processRaceData_timestamp [OF i, of ds ps q rc now0 now1] by (simp add: frameTime_def)
  have near: "\<bar>?t - ?grid\<bar> \<le> (\<bar>of_int ?S\<bar> + \<bar>of_int ?E - of_int ?S\<bar>) / 2 ^ 50"
    unfolding nn
    using frameTime_error [of i "nat ?n" "of_int ?S" "of_int ?E - of_int ?S"] i pos
    by (simp add: frameTime_def)
  have close: "\<bar>of_int (PositionChartData.timestamp (?F ! i)) - ?grid\<bar>
                 < 1 + (\<bar>of_int ?S\<bar> + \<bar>of_int ?E - of_int ?S\<bar>) / 2 ^ 50"
    unfolding stamp using trunc_error near by (rule abs_diff_triangle_less)
  have first: "PositionChartData.timestamp (?F ! 0) = ?S" if "\<bar>?S\<bar> < 2 ^ 53"
    using processRaceData_timestamp [of 0 ls ds ps q rc now0 now1] frameTime_first [OF that]
    by (simp add: trunc_of_int)
  show ?thesis
    unfolding Let_def n [symmetric] S [symmetric] E [symmetric]
    using length_processRaceData [of ds ps ls q rc now0 now1] stamp near close first
    by simp
qed

text \<open>The small race has lap completions and four laps: eight intervals, nine frames.\<close>

theorem frame_count_counterexample:
  "allLapCompletions race_drivers race_positions race_laps race_grid \<noteq> []
   \<and> min (2 * maxLap_of race_laps) 100 = 8
   \<and> length (processRaceData race_drivers race_positions race_laps race_grid [] 0 0) = 9"
proof -
  have "allLapCompletions race_drivers race_positions race_laps race_grid \<noteq> []"
    and "min (2 * maxLap_of race_laps) 100 = 8"
    by code_simp+
  then show ?thesis using length_race_frames by (simp add: race_frames_def)
qed

theorem frame_time_grid_witness:
  "3 \<le> nat (min (2 * Max (insert 1 (Lap.lap_number ` set race_laps))) 100)
   \<and> length race_frames = 9
   \<and> PositionChartData.timestamp (race_frames ! 3) = 102375
   \<and> PositionChartData.timestamp (race_frames ! 0) = 0"
proof -
  have m: "min (2 * Max (insert 1 (Lap.lap_number ` set race_laps))) 100 = 8"
    unfolding maxLap_of_Max [symmetric] by code_simp
  then have h: "3 \<le> nat (min (2 * Max (insert 1 (Lap.lap_number ` set race_laps))) 100)"
    by simp
  have cs: "allLapCompletions race_drivers race_positions race_laps race_grid \<noteq> []"
           "LapCompletion.timestamp (hd (allLapCompletions race_drivers race_positions race_laps race_grid)) = 0"
           "LapCompletion.timestamp (last (allLapCompletions race_drivers race_positions race_laps race_grid)) = 273000"
    by code_simp+
  have t: "trunc (round_double (of_int 0 + round_double (of_nat 3 *
             round_double (round_double (of_int 273000 - of_int 0) / of_int 8)))) = 102375"
    by code_simp
  from frame_time_grid [OF h, of race_drivers race_positions race_grid 0 0 "[]"]
  show ?thesis
    unfolding Let_def m cs race_frames_def [symmetric] using h t cs by simp
qed

text \<open>
  C8 (as amended). There is at least one frame, and in every frame the number of entries with
  a given driver number is the number of driver records with that number if more than three
  lap records carry it (whether or not they have a duration), and zero otherwise. So a driver
  with three lap records is in no frame, and a driver listed once with four or more lap records
  is in every frame exactly once.
\<close>

theorem eligible_drivers_in_frames:
  "processRaceData ds ps ls q rc now0 now1 \<noteq> [] \<and>
   (\<forall>f \<in> set (processRaceData ds ps ls q rc now0 now1).
      length (filter (\<lambda>e. ChartPosition.driver_number e = n) (PositionChartData.positions f))
        = (if 3 < length (filter (\<lambda>lap. Lap.driver_number lap = n) ls)
           then length (filter (\<lambda>d. Driver.driver_number d = n) ds) else 0))"
proof
  have "length (processRaceData ds ps ls q rc now0 now1) \<noteq> 0"
    by (simp add: length_processRaceData)
  then show "processRaceData ds ps ls q rc now0 now1 \<noteq> []" by simp
next
  show "\<forall>f \<in> set (processRaceData ds ps ls q rc now0 now1).
      length (filter (\<lambda>e. ChartPosition.driver_number e = n) (PositionChartData.positions f))
        = (if 3 < length (filter (\<lambda>lap. Lap.driver_number lap = n) ls)
           then length (filter (\<lambda>d. Driver.driver_number d = n) ds) else 0)"
    by (intro ballI count_in_frame)
qed

text \<open>
  Driver 23 has completed three laps and is on the fourth, which has no duration yet; the
  driver is in the first frame.
\<close>

theorem eligibility_counterexample:
  "length (filter (\<lambda>lap. Lap.driver_number lap = 23 \<and> Lap.lap_duration lap \<noteq> None) running_laps) = 3
   \<and> map ChartPosition.driver_number (PositionChartData.positions (running_frames ! 0)) = [23]"
proof -
  have "length (filter (\<lambda>lap. Lap.driver_number lap = 23 \<and> Lap.lap_duration lap \<noteq> None) running_laps) = 3"
    by code_simp
  moreover from running_frames_summary
  have "map ChartPosition.driver_number (PositionChartData.positions (running_frames ! 0)) = [23]"
    by (auto simp: frame_summary_def)
  ultimately show ?thesis by simp
qed

theorem eligible_drivers_in_frames_witness:
  "race_frames ! 3 \<in> set race_frames
   \<and> length (filter (\<lambda>e. ChartPosition.driver_number e = 44) (PositionChartData.positions (race_frames ! 3))) = 0
   \<and> length (filter (\<lambda>e. ChartPosition.driver_number e = 16) (PositionChartData.positions (race_frames ! 3))) = 1"
proof -
  have "3 < length race_frames" by (simp add: length_race_frames)
  then have h: "race_frames ! 3 \<in> set race_frames" by (rule nth_mem)
  have n: "length (filter (\<lambda>lap. Lap.driver_number lap = 44) race_laps) = 2"
          "length (filter (\<lambda>lap. Lap.driver_number lap = 16) race_laps) = 4"
          "length (filter (\<lambda>d. Driver.driver_number d = 16) race_drivers) = 1"
    by code_simp+
  from eligible_drivers_in_frames [of race_drivers race_positions race_laps race_grid "[]" 0 0 44]
       eligible_drivers_in_frames [of race_drivers race_positions race_laps race_grid "[]" 0 0 16] h n
  show ?thesis by (simp add: race_frames_def)
qed

text \<open>
  C6 (as amended). For frames \<open>P\<close> and \<open>C\<close> of the builder, \<^verbatim>\<open>interpolateDriverPositions\<close> with ratio
  1 returns the driver states of \<open>C\<close> unchanged. With ratio 0 it returns the entries of \<open>C\<close>, in the
  order of \<open>C\<close>, where each entry takes its progress from the driver's entry in \<open>P\<close>, carries the
  position in \<open>P\<close> as \<^verbatim>\<open>interpolated_position\<close> and the difference of the positions as
  \<^verbatim>\<open>position_change\<close>; every other field (position, lap number, pit data, lap times) is the one
  of \<open>C\<close>.
\<close>

theorem interpolation_endpoints:
  assumes "P \<in> set (processRaceData ds ps ls q rc now0 now1)"
    and "C \<in> set (processRaceData ds ps ls q rc now0 now1)"
    and "k < length (PositionChartData.positions C)"
  shows "interpolateDriverPositions (Some P) C 1 = PositionChartData.positions C
       \<and> length (interpolateDriverPositions (Some P) C 0) = length (PositionChartData.positions C)
       \<and> (\<exists>p \<in> set (PositionChartData.positions P).
            ChartPosition.driver_number p
              = ChartPosition.driver_number (PositionChartData.positions C ! k)
          \<and> interpolateDriverPositions (Some P) C 0 ! k
              = (PositionChartData.positions C ! k)
                  \<lparr> ChartPosition.progress := ChartPosition.progress p,
                    ChartPosition.interpolated_position := Some (of_int (ChartPosition.position p)),
                    ChartPosition.position_change :=
                      Some (ChartPosition.position (PositionChartData.positions C ! k)
                            - ChartPosition.position p) \<rparr>)"
proof -
  let ?c = "PositionChartData.positions C ! k"
  have "ChartPosition.driver_number ?c \<in> set (map ChartPosition.driver_number (PositionChartData.positions C))"
    using assms(3) by simp
  then have "ChartPosition.driver_number ?c \<in> set (map ChartPosition.driver_number (PositionChartData.positions P))"
    unfolding frame_driver_numbers [OF assms(1)] frame_driver_numbers [OF assms(2)] .
  then have "find (\<lambda>p. ChartPosition.driver_number p = ChartPosition.driver_number ?c)
               (PositionChartData.positions P) \<noteq> None"
    by (auto simp: find_None_iff)
  then obtain p where p: "find (\<lambda>p. ChartPosition.driver_number p = ChartPosition.driver_number ?c)
               (PositionChartData.positions P) = Some p"
    by blast
  then have "p \<in> set (PositionChartData.positions P)"
    and "ChartPosition.driver_number p = ChartPosition.driver_number ?c"
    by (auto simp: find_Some_iff)
  moreover note interpolate_zero_nth [OF assms(3) p]
  moreover have "length (interpolateDriverPositions (Some P) C 0) = length (PositionChartData.positions C)"
    by (simp add: interpolateDriverPositions_def)
  ultimately show ?thesis
    using interpolate_unchanged(1) [of 1 "Some P" C] by blast
qed

text \<open>
  Between the third and the fourth frame of the small race both drivers complete their second
  lap. At ratio 0 the interpolation reports lap 2, the state of the current frame, where the
  previous frame has lap 1.
\<close>

theorem interpolation_counterexample:
  "map ChartPosition.current_lap_number
     (interpolateDriverPositions (Some (race_frames ! 2)) (race_frames ! 3) 0) = [2, 2]
   \<and> map ChartPosition.current_lap_number (PositionChartData.positions (race_frames ! 2)) = [1, 1]"
proof -
  from race_frame_2 have "map ChartPosition.current_lap_number (PositionChartData.positions (race_frames ! 2)) = [1, 1]"
    by (auto simp: frame_summary_def)
  moreover from race_frame_3 have "map ChartPosition.current_lap_number (PositionChartData.positions (race_frames ! 3)) = [2, 2]"
    by (auto simp: frame_summary_def)
  ultimately show ?thesis by (simp add: interpolate_lap_numbers)
qed

theorem interpolation_endpoints_witness:
  "race_frames ! 2 \<in> set race_frames \<and> race_frames ! 3 \<in> set race_frames
   \<and> 1 < length (PositionChartData.positions (race_frames ! 3))
   \<and> interpolateDriverPositions (Some (race_frames ! 2)) (race_frames ! 3) 1
        = PositionChartData.positions (race_frames ! 3)
   \<and> (\<exists>p \<in> set (PositionChartData.positions (race_frames ! 2)).
         ChartPosition.driver_number p = 16
       \<and> ChartPosition.progress (interpolateDriverPositions (Some (race_frames ! 2)) (race_frames ! 3) 0 ! 1)
            = ChartPosition.progress p)"
proof -
  have h2: "race_frames ! 2 \<in> set race_frames" and h3: "race_frames ! 3 \<in> set race_frames"
    by (rule nth_mem, simp add: length_race_frames)+
  have k: "1 < length (PositionChartData.positions (race_frames ! 3))"
    by (simp add: summary_entries(1) [OF race_frame_3])
  have d: "ChartPosition.driver_number (PositionChartData.positions (race_frames ! 3) ! 1) = 16"
    using summary_entries(7) [OF race_frame_3] by simp
  from interpolation_endpoints [OF h2 [unfolded race_frames_def] h3 [unfolded race_frames_def],
         folded race_frames_def, OF k]
  show ?thesis using h2 h3 k d by auto
qed




section \<open>Bodies that are arrays of records\<close>

lemma find_js_records: "find_js P (map Some xs) = Inr (find P xs)"
  by (induction xs) simp_all

lemma find_js_error: "find_js P xs = Inl e \<Longrightarrow> e = TypeError"
  by (induction P xs rule: find_js.induct) (simp_all split: if_splits)

lemma find_js_Some: "find_js P xs = Inr (Some x) \<Longrightarrow> P x \<and> Some x \<in> set xs"
  by (induction P xs rule: find_js.induct) (auto split: if_splits)

lemma finalPositions_step_js_records:
  "finalPositions_step_js (map Some ps) pos fp = Inr (finalPositions_step ps pos fp)"
  by (auto simp: finalPositions_step_js_def finalPositions_step_def Let_def find_js_records
           split: option.splits)

lemma finalPositions_loop_records:
  "finalPositions_loop (map Some ps) (map Some xs) fp = Inr (fold (finalPositions_step ps) xs fp)"
  by (induction xs arbitrary: fp) (simp_all add: finalPositions_step_js_records)

lemma finalPositions_loop_no_null:
  "finalPositions_loop all xs fp = Inr r \<Longrightarrow> None \<notin> set xs"
  by (induction all xs fp rule: finalPositions_loop.induct) (auto split: sum.splits)

lemma map_Some_records: "None \<notin> set xs \<Longrightarrow> map Some (List.map_filter (\<lambda>x. x) xs) = xs"
proof (induction xs)
  case Nil
  show ?case by (simp add: List.map_filter_simps)
next
  case (Cons a xs)
  then show ?case by (cases a) (simp_all add: List.map_filter_simps)
qed

lemma finalPositions_loop_Inr:
  assumes "finalPositions_loop ps ps [] = Inr fp"
  shows "ps = map Some (records (Array ps))" and "fp = finalPositions_of (records (Array ps))"
proof -
  from finalPositions_loop_no_null [OF assms] show ps: "ps = map Some (records (Array ps))"
    by (simp add: records_def map_Some_records)
  from assms have "finalPositions_loop (map Some (records (Array ps))) (map Some (records (Array ps))) [] = Inr fp"
    using ps by simp
  then show "fp = finalPositions_of (records (Array ps))"
    by (simp add: finalPositions_loop_records finalPositions_of_def)
qed

lemma findDriver_records:
  "findDriver (Array (map Some ds)) n = Inr (find (\<lambda>d. Driver.driver_number d = n) ds)"
  by (simp add: findDriver_def find_js_records)

lemma findDriver_error: "findDriver b n = Inl e \<Longrightarrow> e = TypeError"
  by (auto simp: findDriver_def dest: find_js_error split: body.splits)

lemma findDriver_Some:
  "findDriver b n = Inr (Some drv) \<Longrightarrow> Driver.driver_number drv = n \<and> drv \<in> set (records b)"
  by (auto simp: findDriver_def records_def List.map_filter_def dest!: find_js_Some split: body.splits)
     force




section \<open>The season as a list of awards\<close>

lemma awardTo_warnings_update:
  "awardTo drv e (agg\<lparr>warnings := w\<rparr>) = (awardTo drv e agg)\<lparr>warnings := w\<rparr>"
  by (cases e) (simp add: awardTo_def Let_def split: option.splits)

lemma awardTo_warnings: "warnings (awardTo drv e agg) = warnings agg"
  by (cases e) (simp add: awardTo_def Let_def split: option.splits)

lemma fold_give_warnings_update:
  "fold give A (agg\<lparr>warnings := w\<rparr>) = (fold give A agg)\<lparr>warnings := w\<rparr>"
  by (induction A arbitrary: agg) (simp_all add: give_def awardTo_warnings_update)

lemma fold_give_warnings: "warnings (fold give A agg) = warnings agg"
  by (induction A arbitrary: agg) (simp_all add: give_def awardTo_warnings)

lemma awardLoop_give:
  "awardLoop db fp agg
     = (fold give (awards_until db fp) agg,
        if list_ex (\<lambda>entry. isl (findDriver db (fst entry))) fp then Some TypeError else None)"
proof (induction fp arbitrary: agg)
  case Nil
  show ?case by simp
next
  case (Cons entry fp)
  show ?case
  proof (cases "findDriver db (fst entry)")
    case (Inl e)
    then show ?thesis using findDriver_error [OF Inl] by simp
  next
    case (Inr found)
    show ?thesis
    proof (cases found)
      case None
      with Inr Cons.IH show ?thesis by simp
    next
      case (Some drv)
      with Inr have "Driver.driver_number drv = fst entry"
        using findDriver_Some by blast
      then have "awardTo drv entry agg = give (drv, snd entry) agg"
        by (simp add: give_def)
      with Inr Some Cons.IH show ?thesis by simp
    qed
  qed
qed

lemma trySession_give:
  "trySession gd gp s agg
     = (fold give (session_awards gd gp s) agg)
         \<lparr>warnings := warnings agg @ (if session_throws gd gp s then [Session.session_key s] else [])\<rparr>"
proof (cases "gd (Session.session_key s)")
  case (Inl e)
  then show ?thesis by (simp add: trySession_def session_awards_def session_throws_def)
next
  case db: (Inr db)
  show ?thesis
  proof (cases "gp (Session.session_key s)")
    case (Inl e)
    with db show ?thesis by (simp add: trySession_def session_awards_def session_throws_def)
  next
    case pb: (Inr pb)
    show ?thesis
    proof (cases pb)
      case NotArray
      with db pb show ?thesis
        by (simp add: trySession_def session_awards_def session_throws_def processResponses_def)
    next
      case (Array ps)
      show ?thesis
      proof (cases "finalPositions_loop ps ps []")
        case (Inl e)
        with db pb Array show ?thesis
          by (simp add: trySession_def session_awards_def session_throws_def processResponses_def)
      next
        case (Inr fp)
        with db pb Array show ?thesis
          by (simp add: trySession_def session_awards_def session_throws_def processResponses_def
                        awardLoop_give fold_give_warnings)
      qed
    qed
  qed
qed

lemma raceLoop_give:
  "raceLoop gd gp rs agg
     = (fold give (concat (map (session_awards gd gp) rs)) agg)
         \<lparr>warnings := warnings agg @ map Session.session_key (filter (session_throws gd gp) rs)\<rparr>"
proof (induction rs arbitrary: agg)
  case Nil
  show ?case by simp
next
  case (Cons r rs)
  show ?case
    by (simp add: Cons.IH trySession_give fold_give_warnings_update fold_give_warnings)
qed

lemma aggregate_give:
  "aggregate gd gp ss
     = (fold give (season_awards gd gp ss) \<lparr>driverStats = [], constructorStats = [], warnings = []\<rparr>)
         \<lparr>warnings := map Session.session_key
                         (filter (\<lambda>s. isRaceSession s \<and> session_throws gd gp s) ss)\<rparr>"
  by (simp add: aggregate_def raceLoop_give season_awards_def conj_commute)


section \<open>What the maps hold after a list of awards\<close>

lemma totals_snoc:
  "totals (ps @ [p])
     = (js_add (fst (totals ps)) (points_for p),
        (if p = 1 then fst (snd (totals ps)) + 1 else fst (snd (totals ps))),
        (if p \<le> 3 then snd (snd (totals ps)) + 1 else snd (snd (totals ps))))"
  by (simp add: totals_def)

lemma totals_Nil: "totals [] = (Some 0, 0, 0)"
  by (simp add: totals_def)

lemma totals_single:
  "totals [p] = (js_add (Some 0) (points_for p), (if p = 1 then 1 else 0), (if p \<le> 3 then 1 else 0))"
  by (simp add: totals_def)

lemma give_driverStats:
  "map_of (driverStats (give a agg)) n
     = (if Driver.driver_number (fst a) = n
        then Some (case map_of (driverStats agg) n of
                     None \<Rightarrow> \<lparr> DriverStat.driver = fst a,
                               DriverStat.points = js_add (Some 0) (points_for (snd a)),
                               DriverStat.wins = (if snd a = 1 then 0 + 1 else 0),
                               DriverStat.podiums = (if snd a \<le> 3 then 0 + 1 else 0) \<rparr>
                   | Some st \<Rightarrow> st \<lparr> DriverStat.points := js_add (DriverStat.points st) (points_for (snd a)),
                                     DriverStat.wins := (if snd a = 1 then DriverStat.wins st + 1
                                                         else DriverStat.wins st),
                                     DriverStat.podiums := (if snd a \<le> 3 then DriverStat.podiums st + 1
                                                            else DriverStat.podiums st) \<rparr>)
        else map_of (driverStats agg) n)"
  by (simp add: give_def awardTo_def Let_def update_conv' split: option.splits)

lemma driver_stat_snoc:
  "driver_stat (A @ [a]) n
     = (if Driver.driver_number (fst a) = n
        then Some (case driver_stat A n of
                     None \<Rightarrow> \<lparr> DriverStat.driver = fst a,
                               DriverStat.points = js_add (Some 0) (points_for (snd a)),
                               DriverStat.wins = (if snd a = 1 then 0 + 1 else 0),
                               DriverStat.podiums = (if snd a \<le> 3 then 0 + 1 else 0) \<rparr>
                   | Some st \<Rightarrow> st \<lparr> DriverStat.points := js_add (DriverStat.points st) (points_for (snd a)),
                                     DriverStat.wins := (if snd a = 1 then DriverStat.wins st + 1
                                                         else DriverStat.wins st),
                                     DriverStat.podiums := (if snd a \<le> 3 then DriverStat.podiums st + 1
                                                            else DriverStat.podiums st) \<rparr>)
        else driver_stat A n)"
proof -
  have aw: "awarded (A @ [a]) n
              = (if Driver.driver_number (fst a) = n then awarded A n @ [snd a] else awarded A n)"
    by (simp add: awarded_def)
  show ?thesis
  proof (cases "filter (\<lambda>a. Driver.driver_number (fst a) = n) A")
    case Nil
    then have "awarded A n = []" by (simp add: awarded_def)
    with Nil show ?thesis by (simp add: driver_stat_def aw totals_single)
  next
    case (Cons x xs)
    then show ?thesis by (simp add: driver_stat_def aw totals_snoc)
  qed
qed

lemma fold_give_driverStats:
  assumes "\<And>n. map_of (driverStats agg) n = driver_stat A0 n"
  shows "map_of (driverStats (fold give A agg)) n = driver_stat (A0 @ A) n"
  using assms
proof (induction A arbitrary: agg A0)
  case Nil
  then show ?case by simp
next
  case (Cons a A)
  have "map_of (driverStats (give a agg)) m = driver_stat (A0 @ [a]) m" for m
    unfolding give_driverStats driver_stat_snoc by (simp add: Cons.prems)
  from Cons.IH [of "give a agg" "A0 @ [a]", OF this] show ?case by simp
qed

lemma give_constructorStats:
  "map_of (constructorStats (give a agg)) t
     = (if Driver.team_name (fst a) = t
        then Some (case map_of (constructorStats agg) t of
                     None \<Rightarrow> \<lparr> ConstructorStat.team_name = t,
                               ConstructorStat.team_colour = Driver.team_colour (fst a),
                               ConstructorStat.points = js_add (Some 0) (points_for (snd a)),
                               ConstructorStat.wins = (if snd a = 1 then 0 + 1 else 0),
                               ConstructorStat.podiums = (if snd a \<le> 3 then 0 + 1 else 0),
                               ConstructorStat.drivers = set_add (Driver.driver_number (fst a)) [] \<rparr>
                   | Some st \<Rightarrow>
                       st \<lparr> ConstructorStat.points := js_add (ConstructorStat.points st) (points_for (snd a)),
                            ConstructorStat.wins := (if snd a = 1 then ConstructorStat.wins st + 1
                                                     else ConstructorStat.wins st),
                            ConstructorStat.podiums := (if snd a \<le> 3 then ConstructorStat.podiums st + 1
                                                        else ConstructorStat.podiums st),
                            ConstructorStat.drivers :=
                              set_add (Driver.driver_number (fst a)) (ConstructorStat.drivers st) \<rparr>)
        else map_of (constructorStats agg) t)"
  by (simp add: give_def awardTo_def Let_def update_conv' split: option.splits)

lemma constructor_stat_snoc:
  "constructor_stat (A @ [a]) t
     = (if Driver.team_name (fst a) = t
        then Some (case constructor_stat A t of
                     None \<Rightarrow> \<lparr> ConstructorStat.team_name = t,
                               ConstructorStat.team_colour = Driver.team_colour (fst a),
                               ConstructorStat.points = js_add (Some 0) (points_for (snd a)),
                               ConstructorStat.wins = (if snd a = 1 then 0 + 1 else 0),
                               ConstructorStat.podiums = (if snd a \<le> 3 then 0 + 1 else 0),
                               ConstructorStat.drivers = set_add (Driver.driver_number (fst a)) [] \<rparr>
                   | Some st \<Rightarrow>
                       st \<lparr> ConstructorStat.points := js_add (ConstructorStat.points st) (points_for (snd a)),
                            ConstructorStat.wins := (if snd a = 1 then ConstructorStat.wins st + 1
                                                     else ConstructorStat.wins st),
                            ConstructorStat.podiums := (if snd a \<le> 3 then ConstructorStat.podiums st + 1
                                                        else ConstructorStat.podiums st),
                            ConstructorStat.drivers :=
                              set_add (Driver.driver_number (fst a)) (ConstructorStat.drivers st) \<rparr>)
        else constructor_stat A t)"
proof -
  have aw: "team_awarded (A @ [a]) t
              = (if Driver.team_name (fst a) = t then team_awarded A t @ [snd a] else team_awarded A t)"
    by (simp add: team_awarded_def)
  show ?thesis
  proof (cases "filter (\<lambda>a. Driver.team_name (fst a) = t) A")
    case Nil
    then have "team_awarded A t = []" by (simp add: team_awarded_def)
    with Nil show ?thesis by (simp add: constructor_stat_def aw totals_single)
  next
    case (Cons x xs)
    then show ?thesis by (simp add: constructor_stat_def aw totals_snoc)
  qed
qed

lemma fold_give_constructorStats:
  assumes "\<And>t. map_of (constructorStats agg) t = constructor_stat A0 t"
  shows "map_of (constructorStats (fold give A agg)) t = constructor_stat (A0 @ A) t"
  using assms
proof (induction A arbitrary: agg A0)
  case Nil
  then show ?case by simp
next
  case (Cons a A)
  have "map_of (constructorStats (give a agg)) u = constructor_stat (A0 @ [a]) u" for u
    unfolding give_constructorStats constructor_stat_snoc by (simp add: Cons.prems)
  from Cons.IH [of "give a agg" "A0 @ [a]", OF this] show ?case by simp
qed

lemma give_distinct:
  assumes "distinct (map fst (driverStats agg))" and "distinct (map fst (constructorStats agg))"
  shows "distinct (map fst (driverStats (give a agg)))
       \<and> distinct (map fst (constructorStats (give a agg)))"
  using assms
  by (simp add: give_def awardTo_def Let_def distinct_update split: option.splits)

lemma fold_give_distinct:
  assumes "distinct (map fst (driverStats agg))" and "distinct (map fst (constructorStats agg))"
  shows "distinct (map fst (driverStats (fold give A agg)))
       \<and> distinct (map fst (constructorStats (fold give A agg)))"
  using assms by (induction A arbitrary: agg) (simp_all add: give_distinct)

text \<open>The maps at the end of the loop over the race sessions.\<close>

lemma aggregate_stats:
  "map_of (driverStats (aggregate gd gp ss)) n = driver_stat (season_awards gd gp ss) n"
  "map_of (constructorStats (aggregate gd gp ss)) t = constructor_stat (season_awards gd gp ss) t"
  "distinct (map fst (driverStats (aggregate gd gp ss)))"
  "distinct (map fst (constructorStats (aggregate gd gp ss)))"
  "warnings (aggregate gd gp ss)
     = map Session.session_key (filter (\<lambda>s. isRaceSession s \<and> session_throws gd gp s) ss)"
proof -
  let ?init = "\<lparr>driverStats = [], constructorStats = [], warnings = []\<rparr>"
  have d: "map_of (driverStats ?init) m = driver_stat [] m" for m
    by (simp add: driver_stat_def)
  have c: "map_of (constructorStats ?init) u = constructor_stat [] u" for u
    by (simp add: constructor_stat_def)
  show "map_of (driverStats (aggregate gd gp ss)) n = driver_stat (season_awards gd gp ss) n"
    using fold_give_driverStats [of ?init "[]", OF d] by (simp add: aggregate_give)
  show "map_of (constructorStats (aggregate gd gp ss)) t = constructor_stat (season_awards gd gp ss) t"
    using fold_give_constructorStats [of ?init "[]", OF c] by (simp add: aggregate_give)
  show "distinct (map fst (driverStats (aggregate gd gp ss)))"
    and "distinct (map fst (constructorStats (aggregate gd gp ss)))"
    using fold_give_distinct [of ?init "season_awards gd gp ss"] by (simp_all add: aggregate_give)
  show "warnings (aggregate gd gp ss)
     = map Session.session_key (filter (\<lambda>s. isRaceSession s \<and> session_throws gd gp s) ss)"
    by (simp add: aggregate_give)
qed


lemma awards_until_from:
  assumes "a \<in> set (awards_until db fp)"
  shows "fst a \<in> set (records db) \<and> (Driver.driver_number (fst a), snd a) \<in> set fp"
  using assms
proof (induction fp)
  case Nil
  then show ?case by simp
next
  case (Cons entry fp)
  show ?case
  proof (cases "findDriver db (fst entry)")
    case (Inl e)
    with Cons.prems show ?thesis by simp
  next
    case (Inr found)
    show ?thesis
    proof (cases found)
      case None
      with Inr Cons show ?thesis by simp
    next
      case (Some drv)
      from findDriver_Some [OF Inr [unfolded Some]]
      have "Driver.driver_number drv = fst entry" "drv \<in> set (records db)" by simp_all
      with Inr Some Cons show ?thesis by (cases entry) auto
    qed
  qed
qed

text \<open>
  An award of the season is made for a driver record of a session that delivered its drivers,
  and for a final position of the records of the positions of that session.
\<close>

lemma season_awards_from:
  assumes "a \<in> set (season_awards gd gp ss)"
  shows "\<exists>s \<in> set ss. \<exists>db ps. gd (Session.session_key s) = Inr db
            \<and> gp (Session.session_key s) = Inr (Array ps)
            \<and> fst a \<in> set (records db)
            \<and> (Driver.driver_number (fst a), snd a) \<in> set (finalPositions_of (records (Array ps)))"
proof -
  from assms obtain s where s: "s \<in> set ss" "a \<in> set (session_awards gd gp s)"
    by (auto simp: season_awards_def)
  from s(2) have "\<exists>db ps fp. gd (Session.session_key s) = Inr db
        \<and> gp (Session.session_key s) = Inr (Array ps)
        \<and> finalPositions_loop ps ps [] = Inr fp \<and> a \<in> set (awards_until db fp)"
    by (cases "gd (Session.session_key s)"; cases "gp (Session.session_key s)")
       (auto simp: session_awards_def split: body.splits sum.splits, metis)
  then obtain db ps fp where
    r: "gd (Session.session_key s) = Inr db" "gp (Session.session_key s) = Inr (Array ps)"
       "finalPositions_loop ps ps [] = Inr fp" "a \<in> set (awards_until db fp)"
    by blast
  from awards_until_from [OF r(4)] finalPositions_loop_Inr(2) [OF r(3)] r(1,2) s(1)
  show ?thesis by blast
qed

section \<open>A driver number without a driver record\<close>

















lemma mset_insert_by: "mset (insert_by cmp x ys) = add_mset x (mset ys)"
  by (induction ys) simp_all

lemma mset_sort_by: "mset (sort_by cmp xs) = mset xs"
  unfolding sort_by_def by (induction xs) (simp_all add: mset_insert_by)

lemma set_sort_by: "set (sort_by cmp xs) = set xs"
  using mset_sort_by [of cmp xs] by (metis set_mset_mset)


lemma map_snd_enumerate_comp:
  "map (\<lambda>x. f (snd x)) (List.enumerate n xs) = map f xs"
  by (induction xs arbitrary: n) simp_all


section \<open>Sorting with the comparator of the standings\<close>











section \<open>The rows of the tables\<close>

lemma driverStandings_rows:
  "set (map (\<lambda>a. (DriverStanding.driver_number a, driverKey a)) (driverStandings stats))
     = (\<lambda>e. (fst e, DriverStat.points (snd e), DriverStat.wins (snd e), DriverStat.podiums (snd e)))
         ` set stats"
proof -
  let ?sorted = "sort_by (\<lambda>a b. compareStats (driverKey a) (driverKey b)) (driverRows stats)"
  let ?F = "\<lambda>a. (DriverStanding.driver_number a, driverKey a)"
  have key: "driverKey (a\<lparr>DriverStanding.position := p\<rparr>) = driverKey a" for a p
    by (simp add: driverKey_def)
  have "map ?F (driverStandings stats) = map (\<lambda>x. ?F (snd x)) (List.enumerate 0 ?sorted)"
    by (simp add: driverStandings_def case_prod_unfold comp_def key)
  also have "\<dots> = map ?F ?sorted" by (rule map_snd_enumerate_comp)
  finally have "map (\<lambda>a. (DriverStanding.driver_number a, driverKey a)) (driverStandings stats)
          = map (\<lambda>a. (DriverStanding.driver_number a, driverKey a)) ?sorted" .
  then have "set (map (\<lambda>a. (DriverStanding.driver_number a, driverKey a)) (driverStandings stats))
          = (\<lambda>a. (DriverStanding.driver_number a, driverKey a)) ` set (driverRows stats)"
    by (simp add: set_sort_by)
  also have "\<dots> = (\<lambda>e. (fst e, DriverStat.points (snd e), DriverStat.wins (snd e),
                         DriverStat.podiums (snd e))) ` set stats"
    by (force simp: driverRows_def case_prod_unfold driverKey_def)
  finally show ?thesis .
qed

lemma driverStandings_distinct:
  assumes "distinct (map fst stats)"
  shows "distinct (map DriverStanding.driver_number (driverStandings stats))"
proof -
  let ?sorted = "sort_by (\<lambda>a b. compareStats (driverKey a) (driverKey b)) (driverRows stats)"
  have "map DriverStanding.driver_number (driverStandings stats)
          = map DriverStanding.driver_number ?sorted"
    by (simp add: driverStandings_def case_prod_unfold comp_def map_snd_enumerate_comp)
  then have "mset (map DriverStanding.driver_number (driverStandings stats))
          = mset (map DriverStanding.driver_number (driverRows stats))"
    by (simp add: mset_sort_by)
  also have "map DriverStanding.driver_number (driverRows stats) = map fst stats"
    by (simp add: driverRows_def case_prod_unfold comp_def)
  finally show ?thesis using assms by (metis mset_eq_imp_distinct_iff)
qed

lemma constructorStandings_rows:
  "set (map (\<lambda>a. (ConstructorStanding.team_name a, constructorKey a)) (constructorStandings dstats cstats))
     = (\<lambda>e. (fst e, ConstructorStat.points (snd e), ConstructorStat.wins (snd e),
              ConstructorStat.podiums (snd e))) ` set cstats"
proof -
  let ?sorted = "sort_by (\<lambda>a b. compareStats (constructorKey a) (constructorKey b))
                   (constructorRows dstats cstats)"
  let ?F = "\<lambda>a. (ConstructorStanding.team_name a, constructorKey a)"
  have key: "constructorKey (a\<lparr>ConstructorStanding.position := p\<rparr>) = constructorKey a" for a p
    by (simp add: constructorKey_def)
  have "map ?F (constructorStandings dstats cstats)
          = map (\<lambda>x. ?F (snd x)) (List.enumerate 0 ?sorted)"
    by (simp add: constructorStandings_def case_prod_unfold comp_def key)
  also have "\<dots> = map ?F ?sorted" by (rule map_snd_enumerate_comp)
  finally have "map (\<lambda>a. (ConstructorStanding.team_name a, constructorKey a))
                  (constructorStandings dstats cstats)
          = map (\<lambda>a. (ConstructorStanding.team_name a, constructorKey a)) ?sorted" .
  then have "set (map (\<lambda>a. (ConstructorStanding.team_name a, constructorKey a))
                    (constructorStandings dstats cstats))
          = (\<lambda>a. (ConstructorStanding.team_name a, constructorKey a)) ` set (constructorRows dstats cstats)"
    by (simp add: set_sort_by)
  also have "\<dots> = (\<lambda>e. (fst e, ConstructorStat.points (snd e), ConstructorStat.wins (snd e),
                         ConstructorStat.podiums (snd e))) ` set cstats"
    by (force simp: constructorRows_def case_prod_unfold constructorKey_def)
  finally show ?thesis .
qed

lemma constructorStandings_distinct:
  assumes "distinct (map fst cstats)"
  shows "distinct (map ConstructorStanding.team_name (constructorStandings dstats cstats))"
proof -
  let ?sorted = "sort_by (\<lambda>a b. compareStats (constructorKey a) (constructorKey b))
                   (constructorRows dstats cstats)"
  have "map ConstructorStanding.team_name (constructorStandings dstats cstats)
          = map ConstructorStanding.team_name ?sorted"
    by (simp add: constructorStandings_def case_prod_unfold comp_def map_snd_enumerate_comp)
  then have "mset (map ConstructorStanding.team_name (constructorStandings dstats cstats))
          = mset (map ConstructorStanding.team_name (constructorRows dstats cstats))"
    by (simp add: mset_sort_by)
  also have "map ConstructorStanding.team_name (constructorRows dstats cstats) = map fst cstats"
    by (simp add: constructorRows_def case_prod_unfold comp_def)
  finally show ?thesis using assms by (metis mset_eq_imp_distinct_iff)
qed

lemma driver_stat_Some:
  assumes "driver_stat A n = Some st"
  shows "n \<in> set (map (Driver.driver_number \<circ> fst) A)"
    and "(DriverStat.points st, DriverStat.wins st, DriverStat.podiums st) = totals (awarded A n)"
proof -
  from assms obtain a rest where f: "filter (\<lambda>a. Driver.driver_number (fst a) = n) A = a # rest"
    by (auto simp: driver_stat_def split: list.splits)
  then have "a \<in> set (filter (\<lambda>a. Driver.driver_number (fst a) = n) A)" by simp
  then show "n \<in> set (map (Driver.driver_number \<circ> fst) A)" by auto
  from assms f show "(DriverStat.points st, DriverStat.wins st, DriverStat.podiums st)
                       = totals (awarded A n)"
    by (auto simp: driver_stat_def)
qed

lemma driver_stat_awarded:
  assumes "n \<in> set (map (Driver.driver_number \<circ> fst) A)"
  shows "\<exists>st. driver_stat A n = Some st"
proof -
  from assms have "filter (\<lambda>a. Driver.driver_number (fst a) = n) A \<noteq> []"
    by (auto simp: filter_empty_conv)
  then show ?thesis by (auto simp: driver_stat_def split: list.splits)
qed

lemma constructor_stat_Some:
  assumes "constructor_stat A t = Some st"
  shows "t \<in> set (map (Driver.team_name \<circ> fst) A)"
    and "(ConstructorStat.points st, ConstructorStat.wins st, ConstructorStat.podiums st)
           = totals (team_awarded A t)"
proof -
  from assms obtain a rest where f: "filter (\<lambda>a. Driver.team_name (fst a) = t) A = a # rest"
    by (auto simp: constructor_stat_def split: list.splits)
  then have "a \<in> set (filter (\<lambda>a. Driver.team_name (fst a) = t) A)" by simp
  then show "t \<in> set (map (Driver.team_name \<circ> fst) A)" by auto
  from assms f show "(ConstructorStat.points st, ConstructorStat.wins st, ConstructorStat.podiums st)
                       = totals (team_awarded A t)"
    by (auto simp: constructor_stat_def)
qed

lemma constructor_stat_awarded:
  assumes "t \<in> set (map (Driver.team_name \<circ> fst) A)"
  shows "\<exists>st. constructor_stat A t = Some st"
proof -
  from assms have "filter (\<lambda>a. Driver.team_name (fst a) = t) A \<noteq> []"
    by (auto simp: filter_empty_conv)
  then show ?thesis by (auto simp: constructor_stat_def split: list.splits)
qed

text \<open>The rows of the two tables are the totals of the awards of the season.\<close>

lemma standings_totals:
  "set (map (\<lambda>a. (DriverStanding.driver_number a, driverKey a))
          (driverStandings (driverStats (aggregate gd gp ss))))
     = set (map (\<lambda>n. (n, totals (awarded (season_awards gd gp ss) n)))
              (map (Driver.driver_number \<circ> fst) (season_awards gd gp ss)))"
  "set (map (\<lambda>a. (ConstructorStanding.team_name a, constructorKey a))
          (constructorStandings (driverStats (aggregate gd gp ss))
             (constructorStats (aggregate gd gp ss))))
     = set (map (\<lambda>t. (t, totals (team_awarded (season_awards gd gp ss) t)))
              (map (Driver.team_name \<circ> fst) (season_awards gd gp ss)))"
proof -
  let ?A = "season_awards gd gp ss"
  let ?D = "driverStats (aggregate gd gp ss)"
  let ?C = "constructorStats (aggregate gd gp ss)"
  have D: "e \<in> set ?D \<longleftrightarrow> driver_stat ?A (fst e) = Some (snd e)" for e
    using map_of_eq_Some_iff [OF aggregate_stats(3), of gd gp ss "fst e" "snd e"]
    by (simp add: aggregate_stats(1))
  have C: "e \<in> set ?C \<longleftrightarrow> constructor_stat ?A (fst e) = Some (snd e)" for e
    using map_of_eq_Some_iff [OF aggregate_stats(4), of gd gp ss "fst e" "snd e"]
    by (simp add: aggregate_stats(2))
  show "set (map (\<lambda>a. (DriverStanding.driver_number a, driverKey a)) (driverStandings ?D))
     = set (map (\<lambda>n. (n, totals (awarded ?A n))) (map (Driver.driver_number \<circ> fst) ?A))"
    unfolding driverStandings_rows
  proof (intro set_eqI iffI)
    fix x
    assume "x \<in> (\<lambda>e. (fst e, DriverStat.points (snd e), DriverStat.wins (snd e),
                         DriverStat.podiums (snd e))) ` set ?D"
    then obtain e where e: "e \<in> set ?D"
      "x = (fst e, DriverStat.points (snd e), DriverStat.wins (snd e), DriverStat.podiums (snd e))"
      by blast
    from e(1) have "driver_stat ?A (fst e) = Some (snd e)" by (simp only: D)
    from driver_stat_Some [OF this] e(2)
    have n: "fst e \<in> set (map (Driver.driver_number \<circ> fst) ?A)"
      and x: "x = (fst e, totals (awarded ?A (fst e)))"
      by simp_all
    show "x \<in> set (map (\<lambda>n. (n, totals (awarded ?A n))) (map (Driver.driver_number \<circ> fst) ?A))"
      unfolding x set_map [of "\<lambda>n. (n, totals (awarded ?A n))"]
      using n by (intro image_eqI [where x = "fst e"]) simp_all
  next
    fix x
    assume "x \<in> set (map (\<lambda>n. (n, totals (awarded ?A n))) (map (Driver.driver_number \<circ> fst) ?A))"
    then obtain n where n: "n \<in> set (map (Driver.driver_number \<circ> fst) ?A)"
      "x = (n, totals (awarded ?A n))"
      by auto
    from driver_stat_awarded [OF n(1)] obtain st where st: "driver_stat ?A n = Some st" by blast
    then have "(n, st) \<in> set ?D" by (simp add: D)
    moreover from driver_stat_Some(2) [OF st] n(2)
    have "x = (fst (n, st), DriverStat.points (snd (n, st)), DriverStat.wins (snd (n, st)),
               DriverStat.podiums (snd (n, st)))"
      by simp
    ultimately show "x \<in> (\<lambda>e. (fst e, DriverStat.points (snd e), DriverStat.wins (snd e),
                         DriverStat.podiums (snd e))) ` set ?D"
      by (rule rev_image_eqI)
  qed
  show "set (map (\<lambda>a. (ConstructorStanding.team_name a, constructorKey a)) (constructorStandings ?D ?C))
     = set (map (\<lambda>t. (t, totals (team_awarded ?A t))) (map (Driver.team_name \<circ> fst) ?A))"
    unfolding constructorStandings_rows
  proof (intro set_eqI iffI)
    fix x
    assume "x \<in> (\<lambda>e. (fst e, ConstructorStat.points (snd e), ConstructorStat.wins (snd e),
                         ConstructorStat.podiums (snd e))) ` set ?C"
    then obtain e where e: "e \<in> set ?C"
      "x = (fst e, ConstructorStat.points (snd e), ConstructorStat.wins (snd e),
            ConstructorStat.podiums (snd e))"
      by blast
    from e(1) have "constructor_stat ?A (fst e) = Some (snd e)" by (simp only: C)
    from constructor_stat_Some [OF this] e(2)
    have t: "fst e \<in> set (map (Driver.team_name \<circ> fst) ?A)"
      and x: "x = (fst e, totals (team_awarded ?A (fst e)))"
      by simp_all
    show "x \<in> set (map (\<lambda>t. (t, totals (team_awarded ?A t))) (map (Driver.team_name \<circ> fst) ?A))"
      unfolding x set_map [of "\<lambda>t. (t, totals (team_awarded ?A t))"]
      using t by (intro image_eqI [where x = "fst e"]) simp_all
  next
    fix x
    assume "x \<in> set (map (\<lambda>t. (t, totals (team_awarded ?A t))) (map (Driver.team_name \<circ> fst) ?A))"
    then obtain t where t: "t \<in> set (map (Driver.team_name \<circ> fst) ?A)"
      "x = (t, totals (team_awarded ?A t))"
      by auto
    from constructor_stat_awarded [OF t(1)] obtain st where st: "constructor_stat ?A t = Some st"
      by blast
    then have "(t, st) \<in> set ?C" by (simp add: C)
    moreover from constructor_stat_Some(2) [OF st] t(2)
    have "x = (fst (t, st), ConstructorStat.points (snd (t, st)), ConstructorStat.wins (snd (t, st)),
               ConstructorStat.podiums (snd (t, st)))"
      by simp
    ultimately show "x \<in> (\<lambda>e. (fst e, ConstructorStat.points (snd e), ConstructorStat.wins (snd e),
                         ConstructorStat.podiums (snd e))) ` set ?C"
      by (rule rev_image_eqI)
  qed
qed

text \<open>What a session awards when a request fails, and when both bodies are arrays of records.\<close>

lemma session_awards_failed:
  assumes "isl (gd (Session.session_key s)) \<or> isl (gp (Session.session_key s))"
  shows "session_awards gd gp s = []" and "session_throws gd gp s"
  using assms by (auto simp: session_awards_def session_throws_def isl_def split: sum.splits)

lemma awards_until_records:
  "awards_until (Array (map Some ds)) fp
     = List.map_filter (\<lambda>e. map_option (\<lambda>d. (d, snd e))
                              (find (\<lambda>d. Driver.driver_number d = fst e) ds)) fp"
  by (induction fp) (simp_all add: findDriver_records List.map_filter_simps split: option.splits)

lemma session_awards_records:
  assumes "gd (Session.session_key s) = Inr (Array (map Some ds))"
    and "gp (Session.session_key s) = Inr (Array (map Some ps))"
  shows "session_awards gd gp s
           = List.map_filter (\<lambda>e. map_option (\<lambda>d. (d, snd e))
                                    (find (\<lambda>d. Driver.driver_number d = fst e) ds))
               (finalPositions_of ps)"
    and "\<not> session_throws gd gp s"
  using assms
  by (simp_all add: session_awards_def session_throws_def finalPositions_loop_records
                    finalPositions_of_def awards_until_records findDriver_records list_ex_iff)

section \<open>Points totals that are numbers\<close>

lemma set_update_cases:
  "e \<in> set (AList.update k v al) \<Longrightarrow> e = (k, v) \<or> e \<in> set al"
  by (induction al) (auto split: if_splits)

lemma finalPositions_step_values:
  assumes "\<forall>e \<in> set fp. Q (snd e)" and "Q (Position.position pos)"
  shows "\<forall>e \<in> set (finalPositions_step ps pos fp). Q (snd e)"
  using assms by (auto simp: finalPositions_step_def Let_def dest!: set_update_cases)

lemma fold_finalPositions_step_values:
  assumes "\<forall>e \<in> set fp. Q (snd e)" and "\<forall>p \<in> set xs. Q (Position.position p)"
  shows "\<forall>e \<in> set (fold (finalPositions_step ps) xs fp). Q (snd e)"
  using assms
proof (induction xs arbitrary: fp)
  case Nil
  then show ?case by simp
next
  case (Cons x xs)
  have "\<forall>e \<in> set (finalPositions_step ps x fp). Q (snd e)"
    using Cons.prems by (intro finalPositions_step_values) simp_all
  with Cons show ?case by simp
qed

lemma finalPositions_of_values:
  assumes "\<forall>p \<in> set ps. Q (Position.position p)"
  shows "\<forall>e \<in> set (finalPositions_of ps). Q (snd e)"
  unfolding finalPositions_of_def using assms by (intro fold_finalPositions_step_values) simp_all

lemma totals_number:
  assumes "\<forall>p \<in> set ps. 1 \<le> p"
  shows "fst (totals ps) \<noteq> None"
proof -
  have "acc \<noteq> None \<Longrightarrow> \<forall>p \<in> set qs. 1 \<le> p
          \<Longrightarrow> fold (\<lambda>p acc. js_add acc (points_for p)) qs acc \<noteq> None" for qs acc
  proof (induction qs arbitrary: acc)
    case Nil
    then show ?case by simp
  next
    case (Cons q qs)
    from Cons.prems have "js_add acc (points_for q) \<noteq> None"
      by (auto simp: js_add_def points_for_def)
    with Cons show ?case by simp
  qed
  with assms show ?thesis by (simp add: totals_def)
qed

lemma season_awards_from_one:
  assumes "\<forall>s \<in> set ss. \<forall>b. gp (Session.session_key s) = Inr b
             \<longrightarrow> (\<forall>p \<in> set (records b). 1 \<le> Position.position p)"
    and "a \<in> set (season_awards gd gp ss)"
  shows "1 \<le> snd a"
proof -
  from season_awards_from [OF assms(2)] obtain s db ps where
    s: "s \<in> set ss" "gp (Session.session_key s) = Inr (Array ps)"
       "(Driver.driver_number (fst a), snd a) \<in> set (finalPositions_of (records (Array ps)))"
    by blast
  from assms(1) s(1,2) have "\<forall>p \<in> set (records (Array ps)). 1 \<le> Position.position p" by blast
  from finalPositions_of_values [OF this] s(3) show ?thesis by force
qed

lemma aggregate_numbers_only:
  assumes "\<forall>s \<in> set ss. \<forall>b. gp (Session.session_key s) = Inr b
             \<longrightarrow> (\<forall>p \<in> set (records b). 1 \<le> Position.position p)"
  shows "numbers_only (aggregate gd gp ss)"
  unfolding numbers_only_def
proof (intro conjI ballI)
  let ?A = "season_awards gd gp ss"
  have pos: "\<forall>p \<in> set (map snd (filter P ?A)). 1 \<le> p" for P
    using season_awards_from_one [OF assms] by auto
  fix e assume "e \<in> set (driverStats (aggregate gd gp ss))"
  then have "driver_stat ?A (fst e) = Some (snd e)"
    using map_of_eq_Some_iff [OF aggregate_stats(3), of gd gp ss "fst e" "snd e"]
    by (simp add: aggregate_stats(1))
  from driver_stat_Some(2) [OF this]
  have "DriverStat.points (snd e) = fst (totals (awarded ?A (fst e)))"
    by (metis fst_conv)
  with totals_number [OF pos] show "DriverStat.points (snd e) \<noteq> None"
    by (simp add: awarded_def)
next
  let ?A = "season_awards gd gp ss"
  have pos: "\<forall>p \<in> set (map snd (filter P ?A)). 1 \<le> p" for P
    using season_awards_from_one [OF assms] by auto
  fix e assume "e \<in> set (constructorStats (aggregate gd gp ss))"
  then have "constructor_stat ?A (fst e) = Some (snd e)"
    using map_of_eq_Some_iff [OF aggregate_stats(4), of gd gp ss "fst e" "snd e"]
    by (simp add: aggregate_stats(2))
  from constructor_stat_Some(2) [OF this]
  have "ConstructorStat.points (snd e) = fst (totals (team_awarded ?A (fst e)))"
    by (metis fst_conv)
  with totals_number [OF pos] show "ConstructorStat.points (snd e) \<noteq> None"
    by (simp add: team_awarded_def)
qed

lemma driverStandings_points:
  "set (map DriverStanding.points (driverStandings stats)) = (DriverStat.points \<circ> snd) ` set stats"
proof -
  let ?sorted = "sort_by (\<lambda>a b. compareStats (driverKey a) (driverKey b)) (driverRows stats)"
  have "map DriverStanding.points (driverStandings stats) = map DriverStanding.points ?sorted"
    by (simp add: driverStandings_def case_prod_unfold comp_def map_snd_enumerate_comp)
  then have "set (map DriverStanding.points (driverStandings stats))
                  = DriverStanding.points ` set (driverRows stats)"
    by (simp add: set_sort_by)
  also have "\<dots> = (DriverStat.points \<circ> snd) ` set stats"
    by (force simp: driverRows_def case_prod_unfold)
  finally show ?thesis .
qed

lemma constructorStandings_points:
  "set (map ConstructorStanding.points (constructorStandings dstats cstats))
     = (ConstructorStat.points \<circ> snd) ` set cstats"
proof -
  let ?sorted = "sort_by (\<lambda>a b. compareStats (constructorKey a) (constructorKey b))
                   (constructorRows dstats cstats)"
  have "map ConstructorStanding.points (constructorStandings dstats cstats)
          = map ConstructorStanding.points ?sorted"
    by (simp add: constructorStandings_def case_prod_unfold comp_def map_snd_enumerate_comp)
  then have "set (map ConstructorStanding.points (constructorStandings dstats cstats))
                  = ConstructorStanding.points ` set (constructorRows dstats cstats)"
    by (simp add: set_sort_by)
  also have "\<dots> = (ConstructorStat.points \<circ> snd) ` set cstats"
    by (force simp: constructorRows_def case_prod_unfold)
  finally show ?thesis .
qed

text \<open>Position samples from 1 upwards never make a total NaN.\<close>

lemma positions_from_one_give_numbers:
  assumes "\<forall>s \<in> set ss. \<forall>b. gp (Session.session_key s) = Inr b
             \<longrightarrow> (\<forall>p \<in> set (records b). 1 \<le> Position.position p)"
    and "getChampionshipStandings (Inr ss) gd gp now = Inr (cd, w)"
  shows "(\<forall>a \<in> set (ChampionshipData.drivers cd). DriverStanding.points a \<noteq> None)
       \<and> (\<forall>a \<in> set (ChampionshipData.constructors cd). ConstructorStanding.points a \<noteq> None)"
proof -
  let ?agg = "aggregate gd gp ss"
  have n: "numbers_only ?agg"
    using assms(1) by (rule aggregate_numbers_only)
  from assms(2) have d: "ChampionshipData.drivers cd = driverStandings (driverStats ?agg)"
    and c: "ChampionshipData.constructors cd
              = constructorStandings (driverStats ?agg) (constructorStats ?agg)"
    by (auto simp: getChampionshipStandings_def Let_def)
  have "None \<notin> set (map DriverStanding.points (ChampionshipData.drivers cd))"
    unfolding d driverStandings_points using n by (auto simp: numbers_only_def)
  moreover have "None \<notin> set (map ConstructorStanding.points (ChampionshipData.constructors cd))"
    unfolding c constructorStandings_points using n by (auto simp: numbers_only_def)
  ultimately show ?thesis by (simp add: image_iff) (metis option.exhaust)
qed

section \<open>The final classification on records in date order\<close>

lemma last_sample_snoc:
  "last_sample (xs @ [y]) n = (if Position.driver_number y = n then Some y else last_sample xs n)"
  by (simp add: last_sample_def)

lemma last_sample_Some:
  "last_sample xs n = Some l \<Longrightarrow> l \<in> set xs \<and> Position.driver_number l = n"
proof -
  assume a: "last_sample xs n = Some l"
  then have ne: "filter (\<lambda>p. Position.driver_number p = n) xs \<noteq> []"
    by (auto simp: last_sample_def split: if_splits)
  from a have "l = last (filter (\<lambda>p. Position.driver_number p = n) xs)"
    by (auto simp: last_sample_def split: if_splits)
  with ne have "l \<in> set (filter (\<lambda>p. Position.driver_number p = n) xs)"
    using last_in_set by metis
  then show ?thesis by simp
qed

lemma find_append_first:
  assumes "x \<in> set xs" and "P x"
  shows "\<exists>p. find P (xs @ ys) = Some p \<and> p \<in> set xs \<and> P p"
  using assms by (induction xs) auto

lemma finalPositions_step_in_order:
  assumes ord: "in_date_order (xs @ y # ys)"
    and inv: "\<And>n. map_of fp n = map_option Position.position (last_sample xs n)"
  shows "finalPositions_step (xs @ y # ys) y fp
         = AList.update (Position.driver_number y) (Position.position y) fp"
proof (cases "last_sample xs (Position.driver_number y)")
  case None
  then have "map_of fp (Position.driver_number y) = None" by (simp add: inv)
  then show ?thesis by (simp add: finalPositions_step_def)
next
  case (Some l)
  then have l: "l \<in> set xs" "Position.driver_number l = Position.driver_number y"
    using last_sample_Some by blast+
  have ex: "map_of fp (Position.driver_number y) = Some (Position.position l)"
    by (simp add: inv Some)
  let ?P = "\<lambda>p. Position.driver_number p = Position.driver_number y
                 \<and> Some (Position.position p) = Some (Position.position l)"
  from find_append_first [of l xs ?P "y # ys"] l
  obtain p where p: "find ?P (xs @ y # ys) = Some p" "p \<in> set xs" "?P p"
    by auto
  from ord p(2,3) have "Position.date p < Position.date y"
    unfolding in_date_order_def by blast
  then show ?thesis
    using p(1) by (simp add: finalPositions_step_def ex)
qed

lemma fold_finalPositions_step_in_order:
  assumes "in_date_order (xs @ ys)"
    and "\<And>n. map_of fp n = map_option Position.position (last_sample xs n)"
  shows "map_of (fold (finalPositions_step (xs @ ys)) ys fp) n
         = map_option Position.position (last_sample (xs @ ys) n)"
  using assms
proof (induction ys arbitrary: xs fp)
  case Nil
  then show ?case by simp
next
  case (Cons y ys)
  let ?fp = "AList.update (Position.driver_number y) (Position.position y) fp"
  have step: "finalPositions_step (xs @ y # ys) y fp = ?fp"
    using Cons.prems by (rule finalPositions_step_in_order)
  have inv: "map_of ?fp m = map_option Position.position (last_sample (xs @ [y]) m)" for m
    by (simp add: update_conv' last_sample_snoc Cons.prems(2))
  have "in_date_order ((xs @ [y]) @ ys)" using Cons.prems(1) by simp
  from Cons.IH [OF this inv] show ?case by (simp add: step)
qed

lemma finalPositions_last_sample:
  assumes "in_date_order ps"
  shows "map_of (finalPositions_of ps) n = map_option Position.position (last_sample ps n)"
  unfolding finalPositions_of_def
  using fold_finalPositions_step_in_order [of "[]" ps "[]" n] assms
  by (simp add: last_sample_def)

lemma fold_latest_increasing:
  assumes "sorted_wrt (\<lambda>a b. Position.date a < Position.date b) (p # rest)"
  shows "fold (\<lambda>q best. if Position.date q > Position.date best then q else best) rest p
         = last (p # rest)"
  using assms by (induction rest arbitrary: p) auto

lemma in_date_order_filter:
  assumes "in_date_order ps"
  shows "sorted_wrt (\<lambda>a b. Position.date a < Position.date b)
           (filter (\<lambda>p. Position.driver_number p = n) ps)"
  using assms
proof (induction ps rule: rev_induct)
  case Nil
  show ?case by simp
next
  case (snoc y ps)
  have "in_date_order ps"
    unfolding in_date_order_def
  proof (intro allI impI)
    fix xs z ys assume "ps = xs @ z # ys"
    then have "ps @ [y] = xs @ z # (ys @ [y])" by simp
    with snoc.prems show "\<forall>p \<in> set xs. Position.driver_number p = Position.driver_number z
                             \<longrightarrow> Position.date p < Position.date z"
      unfolding in_date_order_def by blast
  qed
  then have ih: "sorted_wrt (\<lambda>a b. Position.date a < Position.date b)
                   (filter (\<lambda>p. Position.driver_number p = n) ps)"
    by (rule snoc.IH)
  have "\<forall>p \<in> set ps. Position.driver_number p = Position.driver_number y
           \<longrightarrow> Position.date p < Position.date y"
    using snoc.prems unfolding in_date_order_def by (metis append_Nil2 append.assoc append_Cons)
  with ih show ?case by (auto simp: sorted_wrt_append)
qed

text \<open>On records that arrive in date order for each driver the code does pick the latest.\<close>

lemma finalPositions_latest_when_in_order:
  assumes "in_date_order ps"
  shows "map_of (finalPositions_of ps) n = map_option Position.position (latest_sample ps n)"
proof -
  have "latest_sample ps n = last_sample ps n"
  proof (cases "filter (\<lambda>p. Position.driver_number p = n) ps")
    case Nil
    then show ?thesis by (simp add: latest_sample_def last_sample_def)
  next
    case (Cons p rest)
    with in_date_order_filter [OF assms, of n]
    have "sorted_wrt (\<lambda>a b. Position.date a < Position.date b) (p # rest)" by simp
    from fold_latest_increasing [OF this] Cons show ?thesis
      by (simp add: latest_sample_def last_sample_def)
  qed
  with finalPositions_last_sample [OF assms] show ?thesis by simp
qed

section \<open>The small seasons, evaluated\<close>

lemma season_warnings: "warnings season_aggregate = [103]"
  by code_simp

lemma season_standings:
  "getChampionshipStandings (Inr season_sessions) season_drivers season_positions 0
     = Inr (season_data, [103])"
  by (simp add: getChampionshipStandings_def Let_def season_data_def
                season_aggregate_def [symmetric] season_warnings)


lemma season_awards_list:
  "map (\<lambda>a. (Driver.driver_number (fst a), snd a))
       (season_awards season_drivers season_positions season_sessions)
     = [(1, 1), (44, 2), (16, 3), (1, 2), (44, 1), (16, 3)]"
  by code_simp

lemma season_throws:
  "map Session.session_key
     (filter (\<lambda>s. isRaceSession s \<and> session_throws season_drivers season_positions s) season_sessions)
     = [103]"
  by code_simp

section \<open>Championship standings: results\<close>

text \<open>
  C3 (the code at a failing input). The final classification is meant to be the position of
  the driver's chronologically latest sample, whatever the order of the records. The loop
  compares a sample with the date of the first record that carries the position stored so far,
  not with the date of the record that stored it. For the samples (10 s, first), (50 s, first),
  (30 s, second), received in this order, it ends with second place; the latest sample, at
  50 s, says first. On records that arrive in date order for each driver the loop does keep the
  latest sample (lemma \<open>finalPositions_latest_when_in_order\<close>).
\<close>

theorem final_classification_failing_input:
  "map_of (finalPositions_of session_positions) 1 = Some 2
   \<and> map_option Position.position (latest_sample session_positions 1) = Some 1"
  by code_simp




text \<open>
  C9 (as amended). \<^verbatim>\<open>getChampionshipStandings\<close> returns standings whatever the race sessions do,
  and warns of exactly the race sessions that throw. The driver table has one row for each
  driver number that was awarded a final position in the season, and the row carries the sum of
  the points, the number of wins and the number of podiums of these awards; likewise the
  constructor table for each team. So no entry and no contribution is lost because another
  session failed. A session whose request fails throws and awards nothing. A session whose
  bodies are arrays of records does not throw, and awards every final position whose driver
  number has a driver record. But a session that throws is not always skipped: what it
  awarded before the throw stays in the totals (the counterexample below).
\<close>

theorem season_totals_of_awards:
  "let A = season_awards gd gp ss
   in (\<exists>cd. getChampionshipStandings (Inr ss) gd gp now
               = Inr (cd, map Session.session_key
                            (filter (\<lambda>s. isRaceSession s \<and> session_throws gd gp s) ss))
          \<and> set (map (\<lambda>a. (DriverStanding.driver_number a, driverKey a)) (ChampionshipData.drivers cd))
              = set (map (\<lambda>n. (n, totals (awarded A n))) (map (Driver.driver_number \<circ> fst) A))
          \<and> distinct (map DriverStanding.driver_number (ChampionshipData.drivers cd))
          \<and> set (map (\<lambda>a. (ConstructorStanding.team_name a, constructorKey a))
                   (ChampionshipData.constructors cd))
              = set (map (\<lambda>t. (t, totals (team_awarded A t))) (map (Driver.team_name \<circ> fst) A))
          \<and> distinct (map ConstructorStanding.team_name (ChampionshipData.constructors cd)))
      \<and> (\<forall>s. isl (gd (Session.session_key s)) \<or> isl (gp (Session.session_key s))
               \<longrightarrow> session_throws gd gp s \<and> session_awards gd gp s = [])
      \<and> (\<forall>s ds ps. gd (Session.session_key s) = Inr (Array (map Some ds))
                    \<and> gp (Session.session_key s) = Inr (Array (map Some ps))
               \<longrightarrow> \<not> session_throws gd gp s
                 \<and> session_awards gd gp s
                     = List.map_filter
                         (\<lambda>e. map_option (\<lambda>d. (d, snd e))
                                 (find (\<lambda>d. Driver.driver_number d = fst e) ds))
                         (finalPositions_of ps))"
proof -
  let ?agg = "aggregate gd gp ss"
  let ?cd = "\<lparr> ChampionshipData.drivers = driverStandings (driverStats ?agg),
               ChampionshipData.constructors =
                 constructorStandings (driverStats ?agg) (constructorStats ?agg),
               ChampionshipData.last_updated = now \<rparr>"
  have "getChampionshipStandings (Inr ss) gd gp now
          = Inr (?cd, map Session.session_key
                        (filter (\<lambda>s. isRaceSession s \<and> session_throws gd gp s) ss))"
    by (simp add: getChampionshipStandings_def Let_def aggregate_stats(5))
  moreover have "distinct (map DriverStanding.driver_number (ChampionshipData.drivers ?cd))"
    using driverStandings_distinct [OF aggregate_stats(3)] by simp
  moreover have "distinct (map ConstructorStanding.team_name (ChampionshipData.constructors ?cd))"
    using constructorStandings_distinct [OF aggregate_stats(4)] by simp
  moreover note standings_totals [of gd gp ss]
  ultimately have "\<exists>cd. getChampionshipStandings (Inr ss) gd gp now
               = Inr (cd, map Session.session_key
                            (filter (\<lambda>s. isRaceSession s \<and> session_throws gd gp s) ss))
          \<and> set (map (\<lambda>a. (DriverStanding.driver_number a, driverKey a)) (ChampionshipData.drivers cd))
              = set (map (\<lambda>n. (n, totals (awarded (season_awards gd gp ss) n)))
                       (map (Driver.driver_number \<circ> fst) (season_awards gd gp ss)))
          \<and> distinct (map DriverStanding.driver_number (ChampionshipData.drivers cd))
          \<and> set (map (\<lambda>a. (ConstructorStanding.team_name a, constructorKey a))
                   (ChampionshipData.constructors cd))
              = set (map (\<lambda>t. (t, totals (team_awarded (season_awards gd gp ss) t)))
                       (map (Driver.team_name \<circ> fst) (season_awards gd gp ss)))
          \<and> distinct (map ConstructorStanding.team_name (ChampionshipData.constructors cd))"
    by (intro exI [of _ ?cd]) simp
  moreover have "\<forall>s. isl (gd (Session.session_key s)) \<or> isl (gp (Session.session_key s))
               \<longrightarrow> session_throws gd gp s \<and> session_awards gd gp s = []"
    using session_awards_failed by blast
  moreover have "\<forall>s ds ps. gd (Session.session_key s) = Inr (Array (map Some ds))
                    \<and> gp (Session.session_key s) = Inr (Array (map Some ps))
               \<longrightarrow> \<not> session_throws gd gp s
                 \<and> session_awards gd gp s
                     = List.map_filter
                         (\<lambda>e. map_option (\<lambda>d. (d, snd e))
                                 (find (\<lambda>d. Driver.driver_number d = fst e) ds))
                         (finalPositions_of ps)"
    using session_awards_records by blast
  ultimately show ?thesis unfolding Let_def by blast
qed

text \<open>
  In the season of one race whose drivers array has a \<^verbatim>\<open>null\<close> after the record of driver 1,
  the session throws when driver 44 is looked up, and a warning names it. Driver 1 has been
  awarded the win by then and is in the table with 25 points; the season without the session
  has an empty table.
\<close>

theorem partial_session_counterexample:
  "warned (getChampionshipStandings (Inr [mkSession 201 ''Race'']) broken_drivers broken_positions 0)
     = [201]
   \<and> driver_table (getChampionshipStandings (Inr [mkSession 201 ''Race'']) broken_drivers
                     broken_positions 0)
     = [(1, 1, Some 25, 1, 1)]
   \<and> driver_table (getChampionshipStandings (Inr []) broken_drivers broken_positions 0) = []"
  by code_simp

theorem season_totals_of_awards_witness:
  "getChampionshipStandings (Inr season_sessions) season_drivers season_positions 0
     = Inr (season_data, [103])
   \<and> map (\<lambda>a. (Driver.driver_number (fst a), snd a))
         (season_awards season_drivers season_positions season_sessions)
       = [(1, 1), (44, 2), (16, 3), (1, 2), (44, 1), (16, 3)]
   \<and> set (map (\<lambda>a. (DriverStanding.driver_number a, driverKey a)) (ChampionshipData.drivers season_data))
       = set (map (\<lambda>n. (n, totals (awarded (season_awards season_drivers season_positions
                                                season_sessions) n)))
                (map (Driver.driver_number \<circ> fst)
                   (season_awards season_drivers season_positions season_sessions)))
   \<and> distinct (map DriverStanding.driver_number (ChampionshipData.drivers season_data))
   \<and> isl (season_drivers (Session.session_key (mkSession 103 ''Race'')))
   \<and> session_throws season_drivers season_positions (mkSession 103 ''Race'')
   \<and> session_awards season_drivers season_positions (mkSession 103 ''Race'') = []"
proof -
  have f: "isl (season_drivers (Session.session_key (mkSession 103 ''Race'')))"
    by (simp add: season_drivers_def mkSession_def)
  from season_totals_of_awards [of season_drivers season_positions season_sessions 0]
  obtain cd where cd:
    "getChampionshipStandings (Inr season_sessions) season_drivers season_positions 0
       = Inr (cd, map Session.session_key
                    (filter (\<lambda>s. isRaceSession s \<and> session_throws season_drivers season_positions s)
                       season_sessions))"
    "set (map (\<lambda>a. (DriverStanding.driver_number a, driverKey a)) (ChampionshipData.drivers cd))
       = set (map (\<lambda>n. (n, totals (awarded (season_awards season_drivers season_positions
                                                season_sessions) n)))
                (map (Driver.driver_number \<circ> fst)
                   (season_awards season_drivers season_positions season_sessions)))"
    "distinct (map DriverStanding.driver_number (ChampionshipData.drivers cd))"
    and failed: "\<forall>s. isl (season_drivers (Session.session_key s))
                     \<or> isl (season_positions (Session.session_key s))
               \<longrightarrow> session_throws season_drivers season_positions s
                 \<and> session_awards season_drivers season_positions s = []"
    unfolding Let_def by blast
  from cd(1) have "cd = season_data" by (simp add: season_standings)
  with cd(2,3) failed f season_standings season_awards_list show ?thesis by blast
qed



end
